theory Spec2Isabelle
  imports Main "HOL-Library.Word"
begin

unbundle bit_operations_syntax

section \<open>nana::filesystem: the directory iterator of filesystem.hpp\<close>

text \<open>
  A shallow embedding of \<^verbatim>\<open>include/nana/filesystem/filesystem.hpp\<close>: the value types
  \<^verbatim>\<open>path\<close> and \<^verbatim>\<open>directory_entry\<close>, and the class \<^verbatim>\<open>directory_iterator\<close> with both
  of its conditionally compiled backends (\<^verbatim>\<open>NANA_WINDOWS\<close> and \<^verbatim>\<open>NANA_LINUX\<close>).

  Conventions of the embedding:
  \<^item> a C string is the list of its characters before the terminating NUL;
    \<^verbatim>\<open>nana::string\<close>, \<^verbatim>\<open>std::string\<close> and \<^verbatim>\<open>nana::charset\<close> conversions are the
    identity on that list;
  \<^item> a member \<^verbatim>\<open>x_\<close> of the iterator is the record field \<open>x_it\<close> (a field name cannot
    end in an underscore); \<^verbatim>\<open>path::text_\<close> is \<open>text_p\<close>, \<^verbatim>\<open>directory_entry::size\<close> is
    \<open>size_e\<close>;
  \<^item> a native search handle is a natural number, \<^verbatim>\<open>nullptr\<close> and a failed open are
    \<open>None\<close>; the operating system's state (open cursors, and a count of the native
    calls made so far) is passed explicitly, so copies of an iterator share the cursor of
    their handle as the C++ copies do;
  \<^item> \<^verbatim>\<open>unsigned long\<close> values are natural numbers, read off the machine words with
    \<open>unat\<close> where the source converts.
\<close>

subsection \<open>path and directory_entry\<close>

record path =
  text_p :: string

text \<open>
  Modelled from the spec: \<^verbatim>\<open>path::name()\<close> is declared in the header and defined in a
  source file that is not part of the sources at hand. The spec: the final component of the
  path, the text after the last separator, or the whole text if no separator is present.
  Both \<^verbatim>\<open>/\<close> and the backslash count as separators here.
\<close>

definition is_separator :: "char \<Rightarrow> bool" where
  "is_separator c = (c = CHR ''/'' \<or> c = CHR 0x5C)"

definition path_name :: "path \<Rightarrow> string" where
  "path_name p = rev (takeWhile (\<lambda>c. \<not> is_separator c) (rev (text_p p)))"

record directory_entry =
  m_path :: path
  size_e :: nat
  directory :: bool

text \<open>
  Modelled from the spec: the default constructor \<^verbatim>\<open>directory_entry()\<close> is declared only;
  the spec gives it an empty path, size 0 and not-directory.
\<close>

definition directory_entry_default :: directory_entry where
  "directory_entry_default = \<lparr>m_path = \<lparr>text_p = []\<rparr>, size_e = 0, directory = False\<rparr>"

text \<open>\<^verbatim>\<open>directory_entry(filename, is_directory, size)\<close>, the constructor of lines 121-123.\<close>

definition value_type :: "string \<Rightarrow> bool \<Rightarrow> nat \<Rightarrow> directory_entry" where
  "value_type filename is_directory sz =
     \<lparr>m_path = \<lparr>text_p = filename\<rparr>, size_e = sz, directory = is_directory\<rparr>"

subsection \<open>The iterator's members\<close>

record WIN32_FIND_DATA =
  dwFileAttributes :: "32 word"
  nFileSizeHigh :: "32 word"
  nFileSizeLow :: "32 word"
  cFileName :: string

text \<open>
  One record for both backends. \<open>wfd_it\<close> is a member under \<^verbatim>\<open>NANA_WINDOWS\<close> only, yet
  \<^verbatim>\<open>_m_read\<close> reads it in its \<^verbatim>\<open>NANA_LINUX\<close> branch too (lines 285-287), so the record
  carries it for both. No constructor initialises it: its first content is an argument of
  the constructors below. \<open>find_ptr_it\<close> is the handle the shared pointer owns.
\<close>

record directory_iterator =
  end_it :: bool
  wfd_it :: WIN32_FIND_DATA
  path_it :: string
  find_ptr_it :: "nat option"
  handle_it :: "nat option"
  value_it :: directory_entry

text \<open>\<^verbatim>\<open>directory_iterator() : end_(true), handle_(nullptr) {}\<close>\<close>

definition directory_iterator_default :: "WIN32_FIND_DATA \<Rightarrow> directory_iterator" where
  "directory_iterator_default uninit =
     \<lparr>end_it = True, wfd_it = uninit, path_it = [], find_ptr_it = None, handle_it = None,
      value_it = directory_entry_default\<rparr>"

text \<open>The member initialisers of \<^verbatim>\<open>directory_iterator(const nana::string&)\<close>, before
  \<^verbatim>\<open>_m_prepare\<close> runs: \<^verbatim>\<open>end_(false), handle_(nullptr)\<close>.\<close>

definition directory_iterator_init :: "WIN32_FIND_DATA \<Rightarrow> directory_iterator" where
  "directory_iterator_init uninit =
     \<lparr>end_it = False, wfd_it = uninit, path_it = [], find_ptr_it = None, handle_it = None,
      value_it = directory_entry_default\<rparr>"

text \<open>\<^verbatim>\<open>equal\<close> (lines 161-165) and the two operators built on it.\<close>

definition equal_it :: "directory_iterator \<Rightarrow> directory_iterator \<Rightarrow> bool" where
  "equal_it this x =
     (if end_it this \<and> (end_it this = end_it x) then True
      else path_name (m_path (value_it this)) = path_name (m_path (value_it x)))"

definition operator_eq :: "directory_iterator \<Rightarrow> directory_iterator \<Rightarrow> bool" where
  "operator_eq x y = equal_it x y"

definition operator_ne :: "directory_iterator \<Rightarrow> directory_iterator \<Rightarrow> bool" where
  "operator_ne x y = (\<not> equal_it x y)"

text \<open>\<^verbatim>\<open>_m_ignore\<close> (lines 167-173): skip the leading dots, then test for the terminator.\<close>

fun m_ignore :: "string \<Rightarrow> bool" where
  "m_ignore [] = True"
| "m_ignore (c # p) = (if c = CHR ''.'' then m_ignore p else False)"

subsection \<open>The Windows backend\<close>

text \<open>
  The platform as the code consumes it. \<open>file_attributes\<close> answers
  \<^verbatim>\<open>GetFileAttributes\<close>; \<open>find_matches\<close> gives, for a search pattern, the raw entries
  that a search started by \<^verbatim>\<open>FindFirstFile\<close> reports, in order (none: the call returns
  \<^verbatim>\<open>INVALID_HANDLE_VALUE\<close>); \<open>find_cursors\<close> holds, for every open search handle, the
  raw entries not yet reported. A failed or exhausted \<^verbatim>\<open>FindNextFile\<close> returns 0 and
  leaves the buffer as it was. Every native call counts in \<open>win_calls\<close>.
\<close>

record win_fs =
  file_attributes :: "string \<Rightarrow> 32 word"
  find_matches :: "string \<Rightarrow> WIN32_FIND_DATA list"
  find_cursors :: "nat \<rightharpoonup> WIN32_FIND_DATA list"
  next_handle :: nat
  win_calls :: nat

definition INVALID_FILE_ATTRIBUTES :: "32 word" where
  "INVALID_FILE_ATTRIBUTES = 0xFFFFFFFF"

definition FILE_ATTRIBUTE_DIRECTORY :: "32 word" where
  "FILE_ATTRIBUTE_DIRECTORY = 0x10"

definition win_called :: "win_fs \<Rightarrow> win_fs" where
  "win_called fs = fs\<lparr>win_calls := Suc (win_calls fs)\<rparr>"

definition GetFileAttributes :: "win_fs \<Rightarrow> string \<Rightarrow> win_fs \<times> 32 word" where
  "GetFileAttributes fs p = (win_called fs, file_attributes fs p)"

definition FindFirstFile :: "win_fs \<Rightarrow> string \<Rightarrow> win_fs \<times> (nat \<times> WIN32_FIND_DATA) option" where
  "FindFirstFile fs pat =
     (case find_matches fs pat of
        [] \<Rightarrow> (win_called fs, None)
      | d # ds \<Rightarrow>
          (win_called (fs\<lparr>find_cursors := (find_cursors fs)(next_handle fs \<mapsto> ds),
                          next_handle := Suc (next_handle fs)\<rparr>),
           Some (next_handle fs, d)))"

definition FindNextFile :: "win_fs \<Rightarrow> nat \<Rightarrow> win_fs \<times> WIN32_FIND_DATA option" where
  "FindNextFile fs h =
     (case find_cursors fs h of
        None \<Rightarrow> (win_called fs, None)
      | Some [] \<Rightarrow> (win_called fs, None)
      | Some (d # ds) \<Rightarrow>
          (win_called (fs\<lparr>find_cursors := (find_cursors fs)(h \<mapsto> ds)\<rparr>), Some d))"

definition FindClose :: "win_fs \<Rightarrow> nat \<Rightarrow> win_fs" where
  "FindClose fs h = win_called (fs\<lparr>find_cursors := (find_cursors fs)(h := None)\<rparr>)"

text \<open>
  The loop \<^verbatim>\<open>while(_m_ignore(wfd_.cFileName)) { if(::FindNextFile(h, &wfd_) == 0) ... }\<close>
  of lines 192-200 and 256-263. It returns the platform state, the buffer \<^verbatim>\<open>wfd_\<close> and
  whether it left the loop through its condition (\<open>True\<close>) or through the failed call.
\<close>

function win_skip :: "win_fs \<Rightarrow> nat \<Rightarrow> WIN32_FIND_DATA \<Rightarrow> win_fs \<times> WIN32_FIND_DATA \<times> bool" where
  "win_skip fs h wfd =
     (if m_ignore (cFileName wfd) then
        (case FindNextFile fs h of
           (fs', None) \<Rightarrow> (fs', wfd, False)
         | (fs', Some wfd') \<Rightarrow> win_skip fs' h wfd')
      else (fs, wfd, True))"
  by pat_completeness auto
termination
  by (relation "measure (\<lambda>(fs, h, wfd). case find_cursors fs h of None \<Rightarrow> 0 | Some ds \<Rightarrow> length ds)")
     (auto simp: FindNextFile_def win_called_def split: option.splits list.splits)

declare win_skip.simps [simp del]

text \<open>The entry built from the buffer (lines 202-204 and 264-266; \<^verbatim>\<open>unsigned long\<close> and
  \<^verbatim>\<open>DWORD\<close> are both 32 bits wide).\<close>

definition win_entry :: "WIN32_FIND_DATA \<Rightarrow> directory_entry" where
  "win_entry wfd =
     value_type (cFileName wfd)
       ((FILE_ATTRIBUTE_DIRECTORY AND dwFileAttributes wfd) = FILE_ATTRIBUTE_DIRECTORY)
       (unat (nFileSizeLow wfd))"

text \<open>\<^verbatim>\<open>_m_prepare\<close>, the \<^verbatim>\<open>NANA_WINDOWS\<close> branch (lines 178-204) and the common tail
  (lines 242-246). \<open>win_pattern\<close> is the search pattern of lines 179-182, from the
  attributes that \<^verbatim>\<open>GetFileAttributes\<close> returned.\<close>

definition win_pattern :: "32 word \<Rightarrow> string \<Rightarrow> string" where
  "win_pattern attr file_path =
     (if attr \<noteq> INVALID_FILE_ATTRIBUTES \<and> attr AND FILE_ATTRIBUTE_DIRECTORY \<noteq> 0
      then file_path @ [CHR 0x5C, CHR ''*''] else file_path)"

definition win_m_prepare :: "string \<Rightarrow> win_fs \<times> directory_iterator \<Rightarrow> win_fs \<times> directory_iterator" where
  "win_m_prepare file_path s =
     (case s of (fs, it) \<Rightarrow>
       (let it1 = it\<lparr>path_it := file_path\<rparr>
        in (case GetFileAttributes fs file_path of
              (fs0, attr) \<Rightarrow>
                (case FindFirstFile fs0 (win_pattern attr file_path) of
                   (fs1, None) \<Rightarrow> (fs1, it1\<lparr>end_it := True\<rparr>)
                 | (fs1, Some (handle, wfd)) \<Rightarrow>
                     (case win_skip fs1 handle wfd of
                        (fs2, wfd', False) \<Rightarrow>
                          (FindClose fs2 handle, it1\<lparr>wfd_it := wfd', end_it := True\<rparr>)
                      | (fs2, wfd', True) \<Rightarrow>
                          (let it2 = it1\<lparr>wfd_it := wfd', value_it := win_entry wfd'\<rparr>
                           in if False = end_it it2
                              then (fs2, it2\<lparr>find_ptr_it := Some handle, handle_it := Some handle\<rparr>)
                              else (fs2, it2)))))))"

text \<open>\<^verbatim>\<open>_m_read\<close>, the \<^verbatim>\<open>NANA_WINDOWS\<close> branch (lines 251-269).\<close>

definition win_m_read :: "win_fs \<times> directory_iterator \<Rightarrow> win_fs \<times> directory_iterator" where
  "win_m_read s =
     (case s of (fs, it) \<Rightarrow>
        (case handle_it it of
           None \<Rightarrow> (fs, it)
         | Some h \<Rightarrow>
             (case FindNextFile fs h of
                (fs1, None) \<Rightarrow> (fs1, it\<lparr>end_it := True\<rparr>)
              | (fs1, Some wfd) \<Rightarrow>
                  (case win_skip fs1 h wfd of
                     (fs2, wfd', False) \<Rightarrow> (fs2, it\<lparr>wfd_it := wfd', end_it := True\<rparr>)
                   | (fs2, wfd', True) \<Rightarrow>
                       (fs2, it\<lparr>wfd_it := wfd', value_it := win_entry wfd'\<rparr>)))))"

text \<open>The constructor from a path, pre-increment and post-increment (lines 139-159). The
  post-increment returns the copy taken before the read beside the new state.\<close>

definition win_directory_iterator ::
  "WIN32_FIND_DATA \<Rightarrow> string \<Rightarrow> win_fs \<Rightarrow> win_fs \<times> directory_iterator" where
  "win_directory_iterator uninit file_path fs =
     win_m_prepare file_path (fs, directory_iterator_init uninit)"

definition win_pre_increment :: "win_fs \<times> directory_iterator \<Rightarrow> win_fs \<times> directory_iterator" where
  "win_pre_increment s = win_m_read s"

definition win_post_increment ::
  "win_fs \<times> directory_iterator \<Rightarrow> (win_fs \<times> directory_iterator) \<times> directory_iterator" where
  "win_post_increment s = (let tmp = snd s in (win_m_read s, tmp))"

subsection \<open>The Linux backend\<close>

text \<open>
  The platform as the code consumes it. \<open>dir_contents\<close> gives, for a path, the names that
  \<^verbatim>\<open>readdir\<close> reports on a stream opened there, in order (\<open>None\<close>: \<^verbatim>\<open>opendir\<close> returns
  a null pointer); \<open>stat_results\<close> answers \<^verbatim>\<open>stat\<close> (\<open>None\<close>: the call fails);
  \<open>dir_streams\<close> holds, for every open stream, the names not yet reported. A
  \<^verbatim>\<open>struct dirent*\<close> is the name it points to, a null pointer is \<open>None\<close>.
  \<^verbatim>\<open>off_t\<close> and \<^verbatim>\<open>unsigned long\<close> are 64 bits wide (LP64). Every native call counts in
  \<open>lin_calls\<close>.
\<close>

record struct_stat =
  st_mode :: "32 word"
  st_size :: "64 word"

record lin_fs =
  dir_contents :: "string \<Rightarrow> string list option"
  stat_results :: "string \<Rightarrow> struct_stat option"
  dir_streams :: "nat \<rightharpoonup> string list"
  next_stream :: nat
  lin_calls :: nat

definition S_ISDIR :: "32 word \<Rightarrow> bool" where
  "S_ISDIR m = ((m AND 0xF000) = 0x4000)"

definition lin_called :: "lin_fs \<Rightarrow> lin_fs" where
  "lin_called fs = fs\<lparr>lin_calls := Suc (lin_calls fs)\<rparr>"

definition opendir :: "lin_fs \<Rightarrow> string \<Rightarrow> lin_fs \<times> nat option" where
  "opendir fs p =
     (case dir_contents fs p of
        None \<Rightarrow> (lin_called fs, None)
      | Some ns \<Rightarrow>
          (lin_called (fs\<lparr>dir_streams := (dir_streams fs)(next_stream fs \<mapsto> ns),
                          next_stream := Suc (next_stream fs)\<rparr>),
           Some (next_stream fs)))"

definition readdir :: "lin_fs \<Rightarrow> nat \<Rightarrow> lin_fs \<times> string option" where
  "readdir fs h =
     (case dir_streams fs h of
        None \<Rightarrow> (lin_called fs, None)
      | Some [] \<Rightarrow> (lin_called fs, None)
      | Some (n # ns) \<Rightarrow>
          (lin_called (fs\<lparr>dir_streams := (dir_streams fs)(h \<mapsto> ns)\<rparr>), Some n))"

definition closedir :: "lin_fs \<Rightarrow> nat \<Rightarrow> lin_fs" where
  "closedir fs h = lin_called (fs\<lparr>dir_streams := (dir_streams fs)(h := None)\<rparr>)"

definition stat :: "lin_fs \<Rightarrow> string \<Rightarrow> lin_fs \<times> struct_stat option" where
  "stat fs p = (lin_called fs, stat_results fs p)"

text \<open>
  The loop \<^verbatim>\<open>while(_m_ignore(dnt->d_name)) { dnt = readdir(h); if(dnt == 0) ... }\<close> of
  lines 217-225 and 274-282: the entry it stops at, or \<open>None\<close> when \<^verbatim>\<open>readdir\<close> ran out.
\<close>

function lin_skip :: "lin_fs \<Rightarrow> nat \<Rightarrow> string \<Rightarrow> lin_fs \<times> string option" where
  "lin_skip fs h d_name =
     (if m_ignore d_name then
        (case readdir fs h of
           (fs', None) \<Rightarrow> (fs', None)
         | (fs', Some d_name') \<Rightarrow> lin_skip fs' h d_name')
      else (fs, Some d_name))"
  by pat_completeness auto
termination
  by (relation "measure (\<lambda>(fs, h, d). case dir_streams fs h of None \<Rightarrow> 0 | Some ns \<Rightarrow> length ns)")
     (auto simp: readdir_def lin_called_def split: option.splits list.splits)

declare lin_skip.simps [simp del]

text \<open>
  \<^verbatim>\<open>_m_prepare\<close>, the \<^verbatim>\<open>NANA_LINUX\<close> branch (lines 207-240) and the common tail (lines
  242-246). The else branch of lines 232-237 assigns \<^verbatim>\<open>value_.name\<close>; \<^verbatim>\<open>directory_entry\<close>
  has no such member, and the assignment is read as one to the entry's path.
  \<open>lin_dir_path\<close> is the value of \<^verbatim>\<open>path_\<close> after lines 207-209.
\<close>

definition lin_dir_path :: "string \<Rightarrow> string" where
  "lin_dir_path file_path =
     (if length file_path \<noteq> 0 \<and> file_path ! (length file_path - 1) \<noteq> CHR ''/''
      then file_path @ [CHR ''/''] else file_path)"

definition lin_m_prepare :: "string \<Rightarrow> lin_fs \<times> directory_iterator \<Rightarrow> lin_fs \<times> directory_iterator" where
  "lin_m_prepare file_path s =
     (case s of (fs, it) \<Rightarrow>
       (let p = lin_dir_path file_path;
            it1 = it\<lparr>path_it := p\<rparr>
        in (case opendir fs p of
              (fs1, None) \<Rightarrow> (fs1, it1\<lparr>end_it := True\<rparr>)
            | (fs1, Some handle) \<Rightarrow>
                (case readdir fs1 handle of
                   (fs2, None) \<Rightarrow> (fs2, it1\<lparr>end_it := True\<rparr>)
                 | (fs2, Some d_name) \<Rightarrow>
                     (case lin_skip fs2 handle d_name of
                        (fs3, None) \<Rightarrow> (closedir fs3 handle, it1\<lparr>end_it := True\<rparr>)
                      | (fs3, Some d_name') \<Rightarrow>
                          (case stat fs3 (p @ d_name') of
                             (fs4, r) \<Rightarrow>
                               (let v = (case r of
                                           Some st \<Rightarrow>
                                             value_type d_name' (S_ISDIR (st_mode st))
                                               (unat (st_size st))
                                         | None \<Rightarrow>
                                             (value_it it1)\<lparr>m_path := \<lparr>text_p = d_name'\<rparr>,
                                                            size_e := 0, directory := False\<rparr>);
                                    it2 = it1\<lparr>value_it := v, end_it := False\<rparr>
                                in if False = end_it it2
                                   then (fs4, it2\<lparr>find_ptr_it := Some handle,
                                                  handle_it := Some handle\<rparr>)
                                   else (fs4, it2))))))))"

text \<open>
  \<^verbatim>\<open>_m_read\<close>, the \<^verbatim>\<open>NANA_LINUX\<close> branch (lines 271-292). When \<^verbatim>\<open>stat\<close> succeeds the
  source builds the entry from \<^verbatim>\<open>wfd_\<close> (lines 285-287), not from \<^verbatim>\<open>dnt\<close> and
  \<^verbatim>\<open>fst\<close>; when it fails the source assigns the name alone (line 289).
\<close>

definition lin_m_read :: "lin_fs \<times> directory_iterator \<Rightarrow> lin_fs \<times> directory_iterator" where
  "lin_m_read s =
     (case s of (fs, it) \<Rightarrow>
        (case handle_it it of
           None \<Rightarrow> (fs, it)
         | Some h \<Rightarrow>
             (case readdir fs h of
                (fs1, None) \<Rightarrow> (fs1, it\<lparr>end_it := True\<rparr>)
              | (fs1, Some d_name) \<Rightarrow>
                  (case lin_skip fs1 h d_name of
                     (fs2, None) \<Rightarrow> (fs2, it\<lparr>end_it := True\<rparr>)
                   | (fs2, Some d_name') \<Rightarrow>
                       (case stat fs2 (path_it it @ ''/'' @ d_name') of
                          (fs3, Some st) \<Rightarrow> (fs3, it\<lparr>value_it := win_entry (wfd_it it)\<rparr>)
                        | (fs3, None) \<Rightarrow>
                            (fs3, it\<lparr>value_it := (value_it it)\<lparr>m_path := \<lparr>text_p = d_name'\<rparr>\<rparr>\<rparr>))))))"

definition lin_directory_iterator ::
  "WIN32_FIND_DATA \<Rightarrow> string \<Rightarrow> lin_fs \<Rightarrow> lin_fs \<times> directory_iterator" where
  "lin_directory_iterator uninit file_path fs =
     lin_m_prepare file_path (fs, directory_iterator_init uninit)"

definition lin_pre_increment :: "lin_fs \<times> directory_iterator \<Rightarrow> lin_fs \<times> directory_iterator" where
  "lin_pre_increment s = lin_m_read s"

definition lin_post_increment ::
  "lin_fs \<times> directory_iterator \<Rightarrow> (lin_fs \<times> directory_iterator) \<times> directory_iterator" where
  "lin_post_increment s = (let tmp = snd s in (lin_m_read s, tmp))"

subsection \<open>Sequences of increments and qualifying entries\<close>

text \<open>A run of increments, each a pre-increment (\<open>False\<close>) or a post-increment (\<open>True\<close>)
  whose returned copy is dropped.\<close>

fun win_increments :: "bool list \<Rightarrow> win_fs \<times> directory_iterator \<Rightarrow> win_fs \<times> directory_iterator" where
  "win_increments [] s = s"
| "win_increments (post # ops) s =
     win_increments ops (if post then fst (win_post_increment s) else win_pre_increment s)"

fun lin_increments :: "bool list \<Rightarrow> lin_fs \<times> directory_iterator \<Rightarrow> lin_fs \<times> directory_iterator" where
  "lin_increments [] s = s"
| "lin_increments (post # ops) s =
     lin_increments ops (if post then fst (lin_post_increment s) else lin_pre_increment s)"

text \<open>The qualifying entries of a raw listing: those \<^verbatim>\<open>_m_ignore\<close> does not skip.\<close>

definition win_qualifying :: "WIN32_FIND_DATA list \<Rightarrow> WIN32_FIND_DATA list" where
  "win_qualifying ds = filter (\<lambda>d. \<not> m_ignore (cFileName d)) ds"

definition lin_qualifying :: "string list \<Rightarrow> string list" where
  "lin_qualifying ns = filter (\<lambda>n. \<not> m_ignore n) ns"

text \<open>The raw listing a constructor enumerates: what \<^verbatim>\<open>FindFirstFile\<close> matches for the
  pattern built from the path, and what \<^verbatim>\<open>opendir\<close> opens for the path with its slash
  (nothing when the open fails).\<close>

definition win_listing :: "win_fs \<Rightarrow> string \<Rightarrow> WIN32_FIND_DATA list" where
  "win_listing fs file_path = find_matches fs (win_pattern (file_attributes fs file_path) file_path)"

definition lin_listing :: "lin_fs \<Rightarrow> string \<Rightarrow> string list" where
  "lin_listing fs file_path =
     (case dir_contents fs (lin_dir_path file_path) of None \<Rightarrow> [] | Some ns \<Rightarrow> ns)"

text \<open>The byte length a raw Windows entry reports, from its two 32-bit halves.\<close>

definition win_byte_length :: "WIN32_FIND_DATA \<Rightarrow> nat" where
  "win_byte_length d = unat (nFileSizeHigh d) * 2 ^ 32 + unat (nFileSizeLow d)"

subsection \<open>Concrete platforms\<close>

text \<open>
  A Windows volume with the directories \<^verbatim>\<open>d\<close> (a file \<^verbatim>\<open>a\<close> of 10 bytes and a directory
  \<^verbatim>\<open>b\<close>), \<^verbatim>\<open>e\<close> (the file \<^verbatim>\<open>a\<close> alone), \<^verbatim>\<open>f\<close> (a file of 4 GiB + 5 bytes) and the empty
  \<^verbatim>\<open>g\<close>; every listing starts with the two dot entries. A Linux tree with \<^verbatim>\<open>/d\<close> (a
  directory \<^verbatim>\<open>sub\<close> and a dangling link \<^verbatim>\<open>gone\<close>, on which \<^verbatim>\<open>stat\<close> fails) and the empty
  \<^verbatim>\<open>/g\<close>. No search is open, no native call has been made.
\<close>

definition ex_uninit :: WIN32_FIND_DATA where
  "ex_uninit = \<lparr>dwFileAttributes = 0, nFileSizeHigh = 0, nFileSizeLow = 0, cFileName = []\<rparr>"

definition ex_wfd_dot :: WIN32_FIND_DATA where
  "ex_wfd_dot = \<lparr>dwFileAttributes = 0x10, nFileSizeHigh = 0, nFileSizeLow = 0, cFileName = ''.''\<rparr>"

definition ex_wfd_dotdot :: WIN32_FIND_DATA where
  "ex_wfd_dotdot = \<lparr>dwFileAttributes = 0x10, nFileSizeHigh = 0, nFileSizeLow = 0, cFileName = ''..''\<rparr>"

definition ex_wfd_a :: WIN32_FIND_DATA where
  "ex_wfd_a = \<lparr>dwFileAttributes = 0x20, nFileSizeHigh = 0, nFileSizeLow = 10, cFileName = ''a''\<rparr>"

definition ex_wfd_b :: WIN32_FIND_DATA where
  "ex_wfd_b = \<lparr>dwFileAttributes = 0x10, nFileSizeHigh = 0, nFileSizeLow = 0, cFileName = ''b''\<rparr>"

definition ex_wfd_big :: WIN32_FIND_DATA where
  "ex_wfd_big = \<lparr>dwFileAttributes = 0x20, nFileSizeHigh = 1, nFileSizeLow = 5, cFileName = ''big''\<rparr>"

definition ex_win_fs :: win_fs where
  "ex_win_fs =
     \<lparr>file_attributes =
        (\<lambda>p. if p = ''d'' \<or> p = ''e'' \<or> p = ''f'' \<or> p = ''g'' then 0x10 else 0xFFFFFFFF),
      find_matches = (\<lambda>pat.
        if pat = ''d'' @ [CHR 0x5C, CHR ''*''] then [ex_wfd_dot, ex_wfd_dotdot, ex_wfd_a, ex_wfd_b]
        else if pat = ''e'' @ [CHR 0x5C, CHR ''*''] then [ex_wfd_dot, ex_wfd_dotdot, ex_wfd_a]
        else if pat = ''f'' @ [CHR 0x5C, CHR ''*''] then [ex_wfd_dot, ex_wfd_dotdot, ex_wfd_big]
        else if pat = ''g'' @ [CHR 0x5C, CHR ''*''] then [ex_wfd_dot, ex_wfd_dotdot]
        else []),
      find_cursors = Map.empty,
      next_handle = 1,
      win_calls = 0\<rparr>"

definition ex_lin_fs :: lin_fs where
  "ex_lin_fs =
     \<lparr>dir_contents = (\<lambda>p.
        if p = ''/d/'' then Some [''.'', ''..'', ''sub'', ''gone'']
        else if p = ''/g/'' then Some [''.'', ''..'']
        else None),
      stat_results = (\<lambda>q. if q = ''/d/sub'' \<or> q = ''/d//sub''
                           then Some \<lparr>st_mode = 0x41ED, st_size = 4096\<rparr> else None),
      dir_streams = Map.empty,
      next_stream = 1,
      lin_calls = 0\<rparr>"


section \<open>The skip loops\<close>

lemma m_ignore_nonempty: "\<not> m_ignore n \<Longrightarrow> n \<noteq> []"
  by (cases n) auto

lemma m_ignore_iff: "m_ignore n = (set n \<subseteq> {CHR ''.''})"
  by (induction n) auto

lemma find_cursors_win_called [simp]: "find_cursors (win_called fs) = find_cursors fs"
  by (simp add: win_called_def)

lemma dir_streams_lin_called [simp]: "dir_streams (lin_called fs) = dir_streams fs"
  by (simp add: lin_called_def)

lemma stat_results_lin_called [simp]: "stat_results (lin_called fs) = stat_results fs"
  by (simp add: lin_called_def)

text \<open>When the Windows loop leaves through its condition, the buffer holds a name that is
  not skipped; this needs no assumption on the handle.\<close>

lemma win_skip_ok: "win_skip fs h d = (fs', d', True) \<Longrightarrow> \<not> m_ignore (cFileName d')"
proof (induction fs h d rule: win_skip.induct)
  case (1 fs h d)
  show ?case
  proof (cases "m_ignore (cFileName d)")
    case True
    obtain fs1 r1 where nx: "FindNextFile fs h = (fs1, r1)"
      by (cases "FindNextFile fs h") auto
    show ?thesis
    proof (cases r1)
      case None
      with "1.prems" True nx show ?thesis
        by (subst (asm) win_skip.simps) simp
    next
      case (Some d1)
      with "1.prems" True nx have "win_skip fs1 h d1 = (fs', d', True)"
        by (subst (asm) win_skip.simps) simp
      from "1.IH" [OF True nx [symmetric] Some this] show ?thesis .
    qed
  next
    case False
    with "1.prems" show ?thesis
      by (subst (asm) win_skip.simps) simp
  qed
qed

lemma lin_skip_some: "lin_skip fs h n = (fs', Some n') \<Longrightarrow> \<not> m_ignore n'"
proof (induction fs h n rule: lin_skip.induct)
  case (1 fs h n)
  show ?case
  proof (cases "m_ignore n")
    case True
    obtain fs1 r1 where nx: "readdir fs h = (fs1, r1)"
      by (cases "readdir fs h") auto
    show ?thesis
    proof (cases r1)
      case None
      with "1.prems" True nx show ?thesis
        by (subst (asm) lin_skip.simps) simp
    next
      case (Some n1)
      with "1.prems" True nx have "lin_skip fs1 h n1 = (fs', Some n')"
        by (subst (asm) lin_skip.simps) simp
      from "1.IH" [OF True nx [symmetric] Some this] show ?thesis .
    qed
  next
    case False
    with "1.prems" show ?thesis
      by (subst (asm) lin_skip.simps) simp
  qed
qed

lemma lin_skip_stat: "lin_skip fs h n = (fs', r) \<Longrightarrow> stat_results fs' = stat_results fs"
proof (induction fs h n rule: lin_skip.induct)
  case (1 fs h n)
  show ?case
  proof (cases "m_ignore n")
    case True
    obtain fs1 r1 where nx: "readdir fs h = (fs1, r1)"
      by (cases "readdir fs h") auto
    then have fr: "stat_results fs1 = stat_results fs"
      by (auto simp: readdir_def split: option.splits list.splits)
    show ?thesis
    proof (cases r1)
      case None
      with "1.prems" True nx fr show ?thesis
        by (subst (asm) lin_skip.simps) simp
    next
      case (Some n1)
      with "1.prems" True nx have "lin_skip fs1 h n1 = (fs', r)"
        by (subst (asm) lin_skip.simps) simp
      from "1.IH" [OF True nx [symmetric] Some this] fr show ?thesis by simp
    qed
  next
    case False
    with "1.prems" show ?thesis
      by (subst (asm) lin_skip.simps) simp
  qed
qed

text \<open>On an open handle the loops stop at the first qualifying entry of what is left,
  and leave the cursor behind it.\<close>

lemma win_skip_spec:
  "find_cursors fs h = Some ds \<Longrightarrow> win_skip fs h d = (fs', d', ok) \<Longrightarrow>
     ok = (win_qualifying (d # ds) \<noteq> []) \<and>
     (ok \<longrightarrow> d' = hd (win_qualifying (d # ds))) \<and>
     (\<exists>ds'. find_cursors fs' h = Some ds' \<and> win_qualifying ds' = tl (win_qualifying (d # ds)))"
proof (induction ds arbitrary: fs d)
  case Nil
  then show ?case
    by (subst (asm) win_skip.simps)
       (auto simp: win_qualifying_def FindNextFile_def split: if_splits)
next
  case (Cons e es)
  show ?case
  proof (cases "m_ignore (cFileName d)")
    case True
    let ?fs1 = "win_called (fs\<lparr>find_cursors := (find_cursors fs)(h \<mapsto> es)\<rparr>)"
    from True Cons.prems have step: "win_skip ?fs1 h e = (fs', d', ok)"
      by (subst (asm) win_skip.simps) (simp add: FindNextFile_def)
    have "find_cursors ?fs1 h = Some es" by simp
    from Cons.IH [OF this step] True show ?thesis
      by (simp add: win_qualifying_def)
  next
    case False
    with Cons.prems show ?thesis
      by (subst (asm) win_skip.simps) (auto simp: win_qualifying_def)
  qed
qed

lemma lin_skip_spec:
  "dir_streams fs h = Some ns \<Longrightarrow> lin_skip fs h n = (fs', r) \<Longrightarrow>
     (r = None) = (lin_qualifying (n # ns) = []) \<and>
     (\<forall>n'. r = Some n' \<longrightarrow> n' = hd (lin_qualifying (n # ns))) \<and>
     (\<exists>ns'. dir_streams fs' h = Some ns' \<and> lin_qualifying ns' = tl (lin_qualifying (n # ns)))"
proof (induction ns arbitrary: fs n)
  case Nil
  then show ?case
    by (subst (asm) lin_skip.simps)
       (auto simp: lin_qualifying_def readdir_def split: if_splits)
next
  case (Cons e es)
  show ?case
  proof (cases "m_ignore n")
    case True
    let ?fs1 = "lin_called (fs\<lparr>dir_streams := (dir_streams fs)(h \<mapsto> es)\<rparr>)"
    from True Cons.prems have step: "lin_skip ?fs1 h e = (fs', r)"
      by (subst (asm) lin_skip.simps) (simp add: readdir_def)
    have "dir_streams ?fs1 h = Some es" by simp
    from Cons.IH [OF this step] True show ?thesis
      by (simp add: lin_qualifying_def)
  next
    case False
    with Cons.prems show ?thesis
      by (subst (asm) lin_skip.simps) (auto simp: lin_qualifying_def)
  qed
qed

section \<open>One read and the constructor, Windows\<close>

lemma win_m_read_spec:
  assumes "handle_it it = Some h" and "find_cursors fs h = Some ds"
    and "win_m_read (fs, it) = (fs', it')"
  shows "handle_it it' = Some h \<and>
     end_it it' = (end_it it \<or> win_qualifying ds = []) \<and>
     value_it it' = (if win_qualifying ds = [] then value_it it else win_entry (hd (win_qualifying ds))) \<and>
     (\<exists>ds'. find_cursors fs' h = Some ds' \<and> win_qualifying ds' = tl (win_qualifying ds))"
proof (cases ds)
  case Nil
  with assms show ?thesis
    by (auto simp: win_m_read_def FindNextFile_def win_qualifying_def)
next
  case (Cons d es)
  let ?fs1 = "win_called (fs\<lparr>find_cursors := (find_cursors fs)(h \<mapsto> es)\<rparr>)"
  obtain fs2 d' ok where sk: "win_skip ?fs1 h d = (fs2, d', ok)"
    by (cases "win_skip ?fs1 h d") auto
  have "find_cursors ?fs1 h = Some es" by simp
  from win_skip_spec [OF this sk] Cons
  have ok: "ok = (win_qualifying ds \<noteq> [])"
    and d': "ok \<Longrightarrow> d' = hd (win_qualifying ds)"
    and cur: "\<exists>ds'. find_cursors fs2 h = Some ds' \<and> win_qualifying ds' = tl (win_qualifying ds)"
    by auto
  from assms Cons sk have res: "fs' = fs2 \<and>
      it' = (if ok then it\<lparr>wfd_it := d', value_it := win_entry d'\<rparr>
             else it\<lparr>wfd_it := d', end_it := True\<rparr>)"
    by (auto simp: win_m_read_def FindNextFile_def)
  show ?thesis
  proof (cases ok)
    case True
    with res ok d' cur assms(1) show ?thesis by auto
  next
    case False
    with res ok cur assms(1) show ?thesis by auto
  qed
qed

lemma win_m_read_end: "end_it (snd s) \<Longrightarrow> end_it (snd (win_m_read s))"
  by (cases s) (auto simp: win_m_read_def split: option.splits prod.splits bool.splits)

lemma win_m_read_live:
  assumes "handle_it it = Some h" and "win_m_read (fs, it) = (fs', it')" and "\<not> end_it it'"
  shows "\<not> m_ignore (text_p (m_path (value_it it')))"
proof -
  obtain fs1 r1 where nx: "FindNextFile fs h = (fs1, r1)"
    by (cases "FindNextFile fs h") auto
  show ?thesis
  proof (cases r1)
    case None
    with assms nx show ?thesis by (auto simp: win_m_read_def)
  next
    case (Some d)
    obtain fs2 d' ok where sk: "win_skip fs1 h d = (fs2, d', ok)"
      by (cases "win_skip fs1 h d") auto
    with assms nx Some have ok and "value_it it' = win_entry d'"
      by (cases ok; auto simp: win_m_read_def)+
    with sk win_skip_ok [of fs1 h d fs2 d'] show ?thesis
      by (simp add: win_entry_def value_type_def)
  qed
qed

lemma win_prepare_spec:
  assumes "win_directory_iterator u p fs = (fs', it)"
  shows "end_it it = (win_qualifying (win_listing fs p) = []) \<and> path_it it = p \<and>
     (win_qualifying (win_listing fs p) = [] \<longrightarrow>
        handle_it it = None \<and> find_ptr_it it = None \<and> value_it it = directory_entry_default) \<and>
     (win_qualifying (win_listing fs p) \<noteq> [] \<longrightarrow>
        handle_it it = Some (next_handle fs) \<and> find_ptr_it it = Some (next_handle fs) \<and>
        value_it it = win_entry (hd (win_qualifying (win_listing fs p))) \<and>
        (\<exists>ds'. find_cursors fs' (next_handle fs) = Some ds' \<and>
               win_qualifying ds' = tl (win_qualifying (win_listing fs p))))"
proof (cases "win_listing fs p")
  case Nil
  with assms show ?thesis
    by (auto simp: win_directory_iterator_def win_m_prepare_def FindFirstFile_def
        GetFileAttributes_def win_listing_def win_called_def
        directory_iterator_init_def win_qualifying_def)
next
  case (Cons d es)
  let ?h = "next_handle fs"
  let ?fs1 = "win_called ((win_called fs)\<lparr>find_cursors := (find_cursors (win_called fs))(?h \<mapsto> es),
                next_handle := Suc ?h\<rparr>)"
  obtain fs2 d' ok where sk: "win_skip ?fs1 ?h d = (fs2, d', ok)"
    by (cases "win_skip ?fs1 ?h d") auto
  have "find_cursors ?fs1 ?h = Some es" by simp
  from win_skip_spec [OF this sk] Cons
  have ok: "ok = (win_qualifying (win_listing fs p) \<noteq> [])"
    and d': "ok \<Longrightarrow> d' = hd (win_qualifying (win_listing fs p))"
    and cur: "\<exists>ds'. find_cursors fs2 ?h = Some ds' \<and>
                 win_qualifying ds' = tl (win_qualifying (win_listing fs p))"
    by auto
  have nh: "next_handle (win_called fs) = ?h" and fm: "find_matches (win_called fs) = find_matches fs"
    by (simp_all add: win_called_def)
  show ?thesis
  proof (cases ok)
    case True
    with assms Cons sk have "fs' = fs2 \<and>
        it = (directory_iterator_init u)\<lparr>path_it := p, wfd_it := d', value_it := win_entry d',
               find_ptr_it := Some ?h, handle_it := Some ?h\<rparr>"
      by (auto simp: win_directory_iterator_def win_m_prepare_def FindFirstFile_def Let_def
          GetFileAttributes_def win_listing_def nh fm directory_iterator_init_def)
    with True ok d' cur show ?thesis by (auto simp: directory_iterator_init_def)
  next
    case False
    with assms Cons sk have "it = (directory_iterator_init u)\<lparr>path_it := p, wfd_it := d', end_it := True\<rparr>"
      by (auto simp: win_directory_iterator_def win_m_prepare_def FindFirstFile_def Let_def
          GetFileAttributes_def win_listing_def nh fm directory_iterator_init_def)
    with False ok show ?thesis by (auto simp: directory_iterator_init_def)
  qed
qed

lemma win_prepare_live:
  assumes "win_directory_iterator u p fs = (fs', it)" and "\<not> end_it it"
  shows "\<not> m_ignore (text_p (m_path (value_it it)))"
proof -
  from win_prepare_spec [OF assms(1)] assms(2)
  have q: "win_qualifying (win_listing fs p) \<noteq> []"
    and v: "value_it it = win_entry (hd (win_qualifying (win_listing fs p)))"
    by auto
  from q have "hd (win_qualifying (win_listing fs p)) \<in> set (win_qualifying (win_listing fs p))"
    by simp
  then have "\<not> m_ignore (cFileName (hd (win_qualifying (win_listing fs p))))"
    by (simp add: win_qualifying_def)
  with v show ?thesis by (simp add: win_entry_def value_type_def)
qed

lemma win_advance_iter:
  "handle_it it = Some h \<Longrightarrow> find_cursors fs h = Some ds \<Longrightarrow>
     end_it (snd ((win_pre_increment ^^ j) (fs, it))) = (end_it it \<or> length (win_qualifying ds) < j)"
proof (induction j arbitrary: fs it ds)
  case 0
  show ?case by simp
next
  case (Suc j)
  obtain fs' it' where st: "win_m_read (fs, it) = (fs', it')"
    by (cases "win_m_read (fs, it)") auto
  from win_m_read_spec [OF Suc.prems st] obtain ds' where
    h': "handle_it it' = Some h" and e': "end_it it' = (end_it it \<or> win_qualifying ds = [])"
    and c': "find_cursors fs' h = Some ds'" and q': "win_qualifying ds' = tl (win_qualifying ds)"
    by auto
  have "(win_pre_increment ^^ Suc j) (fs, it) = (win_pre_increment ^^ j) (fs', it')"
    by (simp add: funpow_swap1 win_pre_increment_def st)
  with Suc.IH [OF h' c'] e' q' show ?case
    by (cases "win_qualifying ds") auto
qed

lemma win_increments_end: "end_it (snd s) \<Longrightarrow> end_it (snd (win_increments ops s))"
  by (induction ops arbitrary: s)
     (auto simp: win_pre_increment_def win_post_increment_def win_m_read_end)

section \<open>One read and the constructor, Linux\<close>

lemma lin_m_read_spec:
  assumes "handle_it it = Some h" and "dir_streams fs h = Some ns"
    and "lin_m_read (fs, it) = (fs', it')"
  shows "handle_it it' = Some h \<and>
     end_it it' = (end_it it \<or> lin_qualifying ns = []) \<and>
     value_it it' =
       (if lin_qualifying ns = [] then value_it it
        else (case stat_results fs (path_it it @ ''/'' @ hd (lin_qualifying ns)) of
                Some st \<Rightarrow> win_entry (wfd_it it)
              | None \<Rightarrow> (value_it it)\<lparr>m_path := \<lparr>text_p = hd (lin_qualifying ns)\<rparr>\<rparr>)) \<and>
     (\<exists>ns'. dir_streams fs' h = Some ns' \<and> lin_qualifying ns' = tl (lin_qualifying ns))"
proof (cases ns)
  case Nil
  with assms show ?thesis
    by (auto simp: lin_m_read_def readdir_def lin_qualifying_def)
next
  case (Cons n es)
  let ?fs1 = "lin_called (fs\<lparr>dir_streams := (dir_streams fs)(h \<mapsto> es)\<rparr>)"
  obtain fs2 r where sk: "lin_skip ?fs1 h n = (fs2, r)"
    by (cases "lin_skip ?fs1 h n") auto
  have "dir_streams ?fs1 h = Some es" by simp
  from lin_skip_spec [OF this sk] Cons
  have none: "(r = None) = (lin_qualifying ns = [])"
    and some: "\<And>n'. r = Some n' \<Longrightarrow> n' = hd (lin_qualifying ns)"
    and cur: "\<exists>ns'. dir_streams fs2 h = Some ns' \<and> lin_qualifying ns' = tl (lin_qualifying ns)"
    by auto
  from lin_skip_stat [OF sk] have st: "stat_results fs2 = stat_results fs"
    by simp
  show ?thesis
  proof (cases r)
    case None
    with assms Cons sk have "fs' = fs2 \<and> it' = it\<lparr>end_it := True\<rparr>"
      by (auto simp: lin_m_read_def readdir_def)
    with None none cur assms(1) show ?thesis by auto
  next
    case (Some n')
    with assms Cons sk have "fs' = lin_called fs2 \<and>
       it' = it\<lparr>value_it := (case stat_results fs (path_it it @ ''/'' @ n') of
                Some st \<Rightarrow> win_entry (wfd_it it)
              | None \<Rightarrow> (value_it it)\<lparr>m_path := \<lparr>text_p = n'\<rparr>\<rparr>)\<rparr>"
      by (auto simp: lin_m_read_def readdir_def stat_def st split: option.splits)
    with Some none some [OF Some] cur assms(1) show ?thesis by auto
  qed
qed

lemma lin_m_read_end: "end_it (snd s) \<Longrightarrow> end_it (snd (lin_m_read s))"
  by (cases s) (auto simp: lin_m_read_def split: option.splits prod.splits)

lemma lin_m_read_live:
  assumes "handle_it it = Some h" and "lin_m_read (fs, it) = (fs', it')" and "\<not> end_it it'"
  shows "value_it it' = win_entry (wfd_it it) \<or> \<not> m_ignore (text_p (m_path (value_it it')))"
proof -
  obtain fs1 r1 where nx: "readdir fs h = (fs1, r1)"
    by (cases "readdir fs h") auto
  show ?thesis
  proof (cases r1)
    case None
    with assms nx show ?thesis by (auto simp: lin_m_read_def)
  next
    case (Some n)
    obtain fs2 r2 where sk: "lin_skip fs1 h n = (fs2, r2)"
      by (cases "lin_skip fs1 h n") auto
    show ?thesis
    proof (cases r2)
      case None
      with assms nx Some sk show ?thesis by (auto simp: lin_m_read_def)
    next
      case (Some n')
      with sk have "\<not> m_ignore n'" by (auto dest: lin_skip_some)
      with assms nx \<open>r1 = Some n\<close> sk Some show ?thesis
        by (auto simp: lin_m_read_def stat_def split: option.splits)
    qed
  qed
qed

lemma lin_prepare_spec:
  assumes "lin_directory_iterator u p fs = (fs', it)"
  shows "end_it it = (lin_qualifying (lin_listing fs p) = []) \<and> path_it it = lin_dir_path p \<and>
     wfd_it it = u \<and>
     (lin_qualifying (lin_listing fs p) = [] \<longrightarrow>
        handle_it it = None \<and> find_ptr_it it = None \<and> value_it it = directory_entry_default) \<and>
     (lin_qualifying (lin_listing fs p) \<noteq> [] \<longrightarrow>
        handle_it it = Some (next_stream fs) \<and> find_ptr_it it = Some (next_stream fs) \<and>
        value_it it =
          (case stat_results fs (lin_dir_path p @ hd (lin_qualifying (lin_listing fs p))) of
             Some st \<Rightarrow> value_type (hd (lin_qualifying (lin_listing fs p)))
                          (S_ISDIR (st_mode st)) (unat (st_size st))
           | None \<Rightarrow> value_type (hd (lin_qualifying (lin_listing fs p))) False 0) \<and>
        (\<exists>ns'. dir_streams fs' (next_stream fs) = Some ns' \<and>
               lin_qualifying ns' = tl (lin_qualifying (lin_listing fs p))))"
proof (cases "dir_contents fs (lin_dir_path p)")
  case None
  with assms show ?thesis
    by (auto simp: lin_directory_iterator_def lin_m_prepare_def opendir_def Let_def
        lin_listing_def lin_qualifying_def directory_iterator_init_def)
next
  case (Some ns)
  then have ls: "lin_listing fs p = ns" by (simp add: lin_listing_def)
  show ?thesis
  proof (cases ns)
    case Nil
    with assms Some ls show ?thesis
      by (auto simp: lin_directory_iterator_def lin_m_prepare_def opendir_def readdir_def Let_def
          directory_iterator_init_def lin_qualifying_def)
  next
    case (Cons n es)
    let ?h = "next_stream fs"
    let ?fs0 = "lin_called (fs\<lparr>dir_streams := (dir_streams fs)(?h \<mapsto> ns), next_stream := Suc ?h\<rparr>)"
    let ?fs1 = "lin_called (?fs0\<lparr>dir_streams := (dir_streams ?fs0)(?h \<mapsto> es)\<rparr>)"
    obtain fs2 r where sk: "lin_skip ?fs1 ?h n = (fs2, r)"
      by (cases "lin_skip ?fs1 ?h n") auto
    have "dir_streams ?fs1 ?h = Some es" by simp
    from lin_skip_spec [OF this sk] Cons
    have none: "(r = None) = (lin_qualifying ns = [])"
      and some: "\<And>n'. r = Some n' \<Longrightarrow> n' = hd (lin_qualifying ns)"
      and cur: "\<exists>ns'. dir_streams fs2 ?h = Some ns' \<and> lin_qualifying ns' = tl (lin_qualifying ns)"
      by auto
    from lin_skip_stat [OF sk] have st: "stat_results fs2 = stat_results fs"
      by simp
    have op: "opendir fs (lin_dir_path p) = (?fs0, Some ?h)"
      using Some by (simp add: opendir_def)
    have rd: "readdir ?fs0 ?h = (?fs1, Some n)"
      using Cons by (simp add: readdir_def)
    show ?thesis
    proof (cases r)
      case None
      with assms op rd sk have "it = (directory_iterator_init u)\<lparr>path_it := lin_dir_path p, end_it := True\<rparr>"
        by (auto simp: lin_directory_iterator_def lin_m_prepare_def Let_def)
      with None none ls show ?thesis by (auto simp: directory_iterator_init_def)
    next
      case (Some n')
      with assms op rd sk have "fs' = lin_called fs2 \<and>
         it = (directory_iterator_init u)\<lparr>path_it := lin_dir_path p,
                value_it := (case stat_results fs (lin_dir_path p @ n') of
                   Some st \<Rightarrow> value_type n' (S_ISDIR (st_mode st)) (unat (st_size st))
                 | None \<Rightarrow> directory_entry_default\<lparr>m_path := \<lparr>text_p = n'\<rparr>, size_e := 0, directory := False\<rparr>),
                end_it := False, find_ptr_it := Some ?h, handle_it := Some ?h\<rparr>"
        by (auto simp: lin_directory_iterator_def lin_m_prepare_def Let_def stat_def st
            directory_iterator_init_def split: option.splits)
      with Some none some [OF Some] cur ls show ?thesis
        by (auto simp: directory_iterator_init_def value_type_def directory_entry_default_def
            split: option.splits)
    qed
  qed
qed

lemma lin_prepare_live:
  assumes "lin_directory_iterator u p fs = (fs', it)" and "\<not> end_it it"
  shows "\<not> m_ignore (text_p (m_path (value_it it)))"
proof -
  let ?n = "hd (lin_qualifying (lin_listing fs p))"
  from lin_prepare_spec [OF assms(1)] assms(2)
  have q: "lin_qualifying (lin_listing fs p) \<noteq> []"
    and v: "text_p (m_path (value_it it)) = ?n"
    by (auto simp: value_type_def split: option.splits)
  from q have "?n \<in> set (lin_qualifying (lin_listing fs p))"
    by simp
  then have "\<not> m_ignore ?n"
    by (simp add: lin_qualifying_def)
  with v show ?thesis by simp
qed

lemma lin_advance_iter:
  "handle_it it = Some h \<Longrightarrow> dir_streams fs h = Some ns \<Longrightarrow>
     end_it (snd ((lin_pre_increment ^^ j) (fs, it))) = (end_it it \<or> length (lin_qualifying ns) < j)"
proof (induction j arbitrary: fs it ns)
  case 0
  show ?case by simp
next
  case (Suc j)
  obtain fs' it' where st: "lin_m_read (fs, it) = (fs', it')"
    by (cases "lin_m_read (fs, it)") auto
  from lin_m_read_spec [OF Suc.prems st] obtain ns' where
    h': "handle_it it' = Some h" and e': "end_it it' = (end_it it \<or> lin_qualifying ns = [])"
    and c': "dir_streams fs' h = Some ns'" and q': "lin_qualifying ns' = tl (lin_qualifying ns)"
    by auto
  have "(lin_pre_increment ^^ Suc j) (fs, it) = (lin_pre_increment ^^ j) (fs', it')"
    by (simp add: funpow_swap1 lin_pre_increment_def st)
  with Suc.IH [OF h' c'] e' q' show ?case
    by (cases "lin_qualifying ns") auto
qed

lemma lin_increments_end: "end_it (snd s) \<Longrightarrow> end_it (snd (lin_increments ops s))"
  by (induction ops arbitrary: s)
     (auto simp: lin_pre_increment_def lin_post_increment_def lin_m_read_end)

text \<open>Unfolding sets for evaluating the model on the concrete platforms.\<close>

lemmas ex_defs = ex_uninit_def ex_wfd_dot_def ex_wfd_dotdot_def ex_wfd_a_def ex_wfd_b_def
  ex_wfd_big_def ex_win_fs_def ex_lin_fs_def

lemmas model_defs = value_type_def directory_iterator_init_def directory_iterator_default_def
  directory_entry_default_def win_entry_def FILE_ATTRIBUTE_DIRECTORY_def Let_def

lemmas win_defs = win_directory_iterator_def win_m_prepare_def win_m_read_def win_pattern_def
  GetFileAttributes_def FindFirstFile_def FindNextFile_def FindClose_def win_called_def
  win_skip.simps INVALID_FILE_ATTRIBUTES_def win_pre_increment_def win_post_increment_def
  win_listing_def win_qualifying_def

lemmas lin_defs = lin_directory_iterator_def lin_m_prepare_def lin_m_read_def lin_dir_path_def
  opendir_def readdir_def closedir_def stat_def lin_called_def lin_skip.simps S_ISDIR_def
  lin_pre_increment_def lin_post_increment_def lin_listing_def lin_qualifying_def

section \<open>Equality of iterators\<close>

lemma equal_it_iff:
  "equal_it x y =
     ((end_it x \<and> end_it y) \<or>
      path_name (m_path (value_it x)) = path_name (m_path (value_it y)))"
  by (auto simp: equal_it_def)

text \<open>
  C1. The claim: two iterators compare equal if and only if both are at end, or neither is
  at end and the names of their current entries are equal; an at-end iterator and a
  not-at-end iterator are never equal. The code compares the names whenever the two end
  flags differ (\<open>equal_it_iff\<close>). On the Windows volume, directory \<^verbatim>\<open>e\<close> holds the single
  file \<^verbatim>\<open>a\<close>: after \<^verbatim>\<open>old = it++\<close> the iterator \<^verbatim>\<open>it\<close> is at end and still holds the entry
  \<^verbatim>\<open>a\<close>, the copy \<^verbatim>\<open>old\<close> is not at end and holds \<^verbatim>\<open>a\<close> too, and the two compare equal in
  both orders.
\<close>

theorem equal_ended_and_live_same_name:
  "(case win_post_increment (win_directory_iterator ex_uninit ''e'' ex_win_fs) of
      (s, old) \<Rightarrow>
        end_it (snd s) \<and> \<not> end_it old \<and>
        value_it (snd s) = value_type ''a'' False 10 \<and> value_it old = value_type ''a'' False 10 \<and>
        operator_eq (snd s) old \<and> operator_eq old (snd s) \<and> \<not> operator_ne (snd s) old)"
  by (simp add: ex_defs model_defs win_defs operator_eq_def operator_ne_def equal_it_def)

section \<open>Construction when the open fails\<close>

text \<open>
  C2. When the native open fails (\<^verbatim>\<open>FindFirstFile\<close> returns \<^verbatim>\<open>INVALID_HANDLE_VALUE\<close>,
  \<^verbatim>\<open>opendir\<close> returns a null pointer), the constructor yields the default-constructed end
  iterator but for the private path: at end, no handle held or owned, the default entry; the
  platform has no cursor more than before; the result equals the default-constructed
  iterator in both orders; and an iterator constructed over a directory with no qualifying
  entry (here or on any other platform state) has the same end flag, handle, owner and
  entry, and compares the same against every iterator.
\<close>

theorem open_failure_constructs_end:
  "(find_matches fs (win_pattern (file_attributes fs p) p) = [] \<and>
    win_directory_iterator u p fs = (fs', it) \<longrightarrow>
      it = (directory_iterator_default u)\<lparr>path_it := p\<rparr> \<and>
      find_cursors fs' = find_cursors fs \<and> next_handle fs' = next_handle fs \<and>
      operator_eq it (directory_iterator_default u') \<and>
      operator_eq (directory_iterator_default u') it \<and>
      (\<forall>fs0 p0 u0 fs0' it0.
          win_qualifying (win_listing fs0 p0) = [] \<and>
          win_directory_iterator u0 p0 fs0 = (fs0', it0) \<longrightarrow>
            end_it it0 = end_it it \<and> handle_it it0 = handle_it it \<and>
            find_ptr_it it0 = find_ptr_it it \<and> value_it it0 = value_it it \<and>
            (\<forall>x. operator_eq it0 x = operator_eq it x) \<and>
            (\<forall>x. operator_eq x it0 = operator_eq x it))) \<and>
   (dir_contents lfs (lin_dir_path q) = None \<and>
    lin_directory_iterator u q lfs = (lfs', lit) \<longrightarrow>
      lit = (directory_iterator_default u)\<lparr>path_it := lin_dir_path q\<rparr> \<and>
      dir_streams lfs' = dir_streams lfs \<and> next_stream lfs' = next_stream lfs \<and>
      operator_eq lit (directory_iterator_default u') \<and>
      operator_eq (directory_iterator_default u') lit \<and>
      (\<forall>fs0 p0 u0 fs0' it0.
          (\<exists>ns. dir_contents fs0 (lin_dir_path p0) = Some ns \<and> lin_qualifying ns = []) \<and>
          lin_directory_iterator u0 p0 fs0 = (fs0', it0) \<longrightarrow>
            end_it it0 = end_it lit \<and> handle_it it0 = handle_it lit \<and>
            find_ptr_it it0 = find_ptr_it lit \<and> value_it it0 = value_it lit \<and>
            (\<forall>x. operator_eq it0 x = operator_eq lit x) \<and>
            (\<forall>x. operator_eq x it0 = operator_eq x lit)))"
proof (intro conjI impI)
  assume a: "find_matches fs (win_pattern (file_attributes fs p) p) = [] \<and>
    win_directory_iterator u p fs = (fs', it)"
  then have it: "it = (directory_iterator_default u)\<lparr>path_it := p\<rparr>"
    and fs': "fs' = win_called (win_called fs)"
    by (auto simp: win_directory_iterator_def win_m_prepare_def GetFileAttributes_def
        FindFirstFile_def directory_iterator_init_def directory_iterator_default_def
        win_called_def)
  show "it = (directory_iterator_default u)\<lparr>path_it := p\<rparr>" by (rule it)
  show "find_cursors fs' = find_cursors fs" by (simp add: fs')
  show "next_handle fs' = next_handle fs" by (simp add: fs' win_called_def)
  show "operator_eq it (directory_iterator_default u')"
    by (simp add: it operator_eq_def equal_it_def directory_iterator_default_def)
  show "operator_eq (directory_iterator_default u') it"
    by (simp add: it operator_eq_def equal_it_def directory_iterator_default_def)
  show "\<forall>fs0 p0 u0 fs0' it0.
          win_qualifying (win_listing fs0 p0) = [] \<and>
          win_directory_iterator u0 p0 fs0 = (fs0', it0) \<longrightarrow>
            end_it it0 = end_it it \<and> handle_it it0 = handle_it it \<and>
            find_ptr_it it0 = find_ptr_it it \<and> value_it it0 = value_it it \<and>
            (\<forall>x. operator_eq it0 x = operator_eq it x) \<and>
            (\<forall>x. operator_eq x it0 = operator_eq x it)"
  proof (intro allI impI)
    fix fs0 p0 u0 fs0' it0
    assume b: "win_qualifying (win_listing fs0 p0) = [] \<and>
          win_directory_iterator u0 p0 fs0 = (fs0', it0)"
    then have c: "win_directory_iterator u0 p0 fs0 = (fs0', it0)" by simp
    from win_prepare_spec [OF c] b
    have "end_it it0 \<and> handle_it it0 = None \<and> find_ptr_it it0 = None \<and>
          value_it it0 = directory_entry_default"
      by simp
    then show "end_it it0 = end_it it \<and> handle_it it0 = handle_it it \<and>
            find_ptr_it it0 = find_ptr_it it \<and> value_it it0 = value_it it \<and>
            (\<forall>x. operator_eq it0 x = operator_eq it x) \<and>
            (\<forall>x. operator_eq x it0 = operator_eq x it)"
      by (simp add: it operator_eq_def equal_it_def directory_iterator_default_def)
  qed
next
  assume a: "dir_contents lfs (lin_dir_path q) = None \<and>
    lin_directory_iterator u q lfs = (lfs', lit)"
  then have it: "lit = (directory_iterator_default u)\<lparr>path_it := lin_dir_path q\<rparr>"
    and fs': "lfs' = lin_called lfs"
    by (auto simp: lin_directory_iterator_def lin_m_prepare_def opendir_def Let_def
        directory_iterator_init_def directory_iterator_default_def)
  show "lit = (directory_iterator_default u)\<lparr>path_it := lin_dir_path q\<rparr>" by (rule it)
  show "dir_streams lfs' = dir_streams lfs" by (simp add: fs')
  show "next_stream lfs' = next_stream lfs" by (simp add: fs' lin_called_def)
  show "operator_eq lit (directory_iterator_default u')"
    by (simp add: it operator_eq_def equal_it_def directory_iterator_default_def)
  show "operator_eq (directory_iterator_default u') lit"
    by (simp add: it operator_eq_def equal_it_def directory_iterator_default_def)
  show "\<forall>fs0 p0 u0 fs0' it0.
          (\<exists>ns. dir_contents fs0 (lin_dir_path p0) = Some ns \<and> lin_qualifying ns = []) \<and>
          lin_directory_iterator u0 p0 fs0 = (fs0', it0) \<longrightarrow>
            end_it it0 = end_it lit \<and> handle_it it0 = handle_it lit \<and>
            find_ptr_it it0 = find_ptr_it lit \<and> value_it it0 = value_it lit \<and>
            (\<forall>x. operator_eq it0 x = operator_eq lit x) \<and>
            (\<forall>x. operator_eq x it0 = operator_eq x lit)"
  proof (intro allI impI)
    fix fs0 p0 u0 fs0' it0
    assume b: "(\<exists>ns. dir_contents fs0 (lin_dir_path p0) = Some ns \<and> lin_qualifying ns = []) \<and>
          lin_directory_iterator u0 p0 fs0 = (fs0', it0)"
    then have c: "lin_directory_iterator u0 p0 fs0 = (fs0', it0)"
      and e: "lin_qualifying (lin_listing fs0 p0) = []"
      by (auto simp: lin_listing_def)
    from lin_prepare_spec [OF c] e
    have "end_it it0 \<and> handle_it it0 = None \<and> find_ptr_it it0 = None \<and>
          value_it it0 = directory_entry_default"
      by simp
    then show "end_it it0 = end_it lit \<and> handle_it it0 = handle_it lit \<and>
            find_ptr_it it0 = find_ptr_it lit \<and> value_it it0 = value_it lit \<and>
            (\<forall>x. operator_eq it0 x = operator_eq lit x) \<and>
            (\<forall>x. operator_eq x it0 = operator_eq x lit)"
      by (simp add: it operator_eq_def equal_it_def directory_iterator_default_def)
  qed
qed

theorem open_failure_constructs_end_witness:
  "find_matches ex_win_fs (win_pattern (file_attributes ex_win_fs ''nope'') ''nope'') = [] \<and>
   snd (win_directory_iterator ex_uninit ''nope'' ex_win_fs) =
     (directory_iterator_default ex_uninit)\<lparr>path_it := ''nope''\<rparr> \<and>
   operator_eq (snd (win_directory_iterator ex_uninit ''nope'' ex_win_fs))
     (directory_iterator_default ex_uninit) \<and>
   win_qualifying (win_listing ex_win_fs ''g'') = [] \<and>
   value_it (snd (win_directory_iterator ex_uninit ''g'' ex_win_fs)) =
     value_it (snd (win_directory_iterator ex_uninit ''nope'' ex_win_fs)) \<and>
   end_it (snd (win_directory_iterator ex_uninit ''g'' ex_win_fs)) =
     end_it (snd (win_directory_iterator ex_uninit ''nope'' ex_win_fs)) \<and>
   dir_contents ex_lin_fs (lin_dir_path ''/nope'') = None \<and>
   snd (lin_directory_iterator ex_uninit ''/nope'' ex_lin_fs) =
     (directory_iterator_default ex_uninit)\<lparr>path_it := ''/nope/''\<rparr> \<and>
   operator_eq (snd (lin_directory_iterator ex_uninit ''/nope'' ex_lin_fs))
     (directory_iterator_default ex_uninit) \<and>
   dir_contents ex_lin_fs (lin_dir_path ''/g'') = Some [''.'', ''..''] \<and>
   lin_qualifying [''.'', ''..''] = [] \<and>
   value_it (snd (lin_directory_iterator ex_uninit ''/g'' ex_lin_fs)) =
     value_it (snd (lin_directory_iterator ex_uninit ''/nope'' ex_lin_fs)) \<and>
   end_it (snd (lin_directory_iterator ex_uninit ''/g'' ex_lin_fs)) =
     end_it (snd (lin_directory_iterator ex_uninit ''/nope'' ex_lin_fs))"
  using open_failure_constructs_end [where fs = ex_win_fs and p = "''nope''" and u = ex_uninit
      and u' = ex_uninit
      and fs' = "fst (win_directory_iterator ex_uninit ''nope'' ex_win_fs)"
      and it = "snd (win_directory_iterator ex_uninit ''nope'' ex_win_fs)"
      and lfs = ex_lin_fs and q = "''/nope''"
      and lfs' = "fst (lin_directory_iterator ex_uninit ''/nope'' ex_lin_fs)"
      and lit = "snd (lin_directory_iterator ex_uninit ''/nope'' ex_lin_fs)"]
  by (simp add: ex_defs model_defs win_defs lin_defs operator_eq_def equal_it_def)

section \<open>The skip filter in the produced sequence\<close>

text \<open>
  \<^verbatim>\<open>_m_ignore\<close> skips exactly the names with no character other than a dot. Where the
  entry is built from the raw entry the loop stopped at (the Windows constructor and
  increment, the Linux constructor), a not-at-end iterator holds a name that is not
  skipped.
\<close>

lemma raw_names_not_skipped:
  "m_ignore n = (set n \<subseteq> {CHR ''.''}) \<and>
   (win_directory_iterator u p fs = (fs', it) \<and> \<not> end_it it \<longrightarrow>
      \<not> m_ignore (text_p (m_path (value_it it)))) \<and>
   (handle_it wit = Some h \<and> win_increments [post] (wfs, wit) = (wfs', wit') \<and> \<not> end_it wit' \<longrightarrow>
      \<not> m_ignore (text_p (m_path (value_it wit')))) \<and>
   (lin_directory_iterator u q lfs = (lfs', lit) \<and> \<not> end_it lit \<longrightarrow>
      \<not> m_ignore (text_p (m_path (value_it lit))))"
proof (intro conjI impI)
  show "m_ignore n = (set n \<subseteq> {CHR ''.''})" by (rule m_ignore_iff)
next
  assume "win_directory_iterator u p fs = (fs', it) \<and> \<not> end_it it"
  then show "\<not> m_ignore (text_p (m_path (value_it it)))"
    using win_prepare_live by blast
next
  assume a: "handle_it wit = Some h \<and> win_increments [post] (wfs, wit) = (wfs', wit') \<and>
    \<not> end_it wit'"
  then have "win_m_read (wfs, wit) = (wfs', wit')"
    by (cases post) (simp_all add: win_post_increment_def win_pre_increment_def)
  with a show "\<not> m_ignore (text_p (m_path (value_it wit')))"
    using win_m_read_live by blast
next
  assume "lin_directory_iterator u q lfs = (lfs', lit) \<and> \<not> end_it lit"
  then show "\<not> m_ignore (text_p (m_path (value_it lit)))"
    using lin_prepare_live by blast
qed


section \<open>Reaching the end\<close>

lemma win_constructed_advance:
  assumes k: "1 \<le> length (win_qualifying (win_listing fs p))"
  shows "end_it (snd ((win_pre_increment ^^ j) (win_directory_iterator u p fs))) =
     (length (win_qualifying (win_listing fs p)) \<le> j)"
proof -
  let ?q = "win_qualifying (win_listing fs p)"
  obtain fs' it where c: "win_directory_iterator u p fs = (fs', it)"
    by (cases "win_directory_iterator u p fs") blast
  from k have ne: "?q \<noteq> []" by auto
  from win_prepare_spec [OF c] have
    "?q \<noteq> [] \<longrightarrow>
        handle_it it = Some (next_handle fs) \<and> find_ptr_it it = Some (next_handle fs) \<and>
        value_it it = win_entry (hd ?q) \<and>
        (\<exists>ds'. find_cursors fs' (next_handle fs) = Some ds' \<and> win_qualifying ds' = tl ?q)"
    and e: "end_it it = (?q = [])"
    by blast+
  with ne obtain ds' where h: "handle_it it = Some (next_handle fs)"
    and cur: "find_cursors fs' (next_handle fs) = Some ds'"
    and q: "win_qualifying ds' = tl ?q"
    by blast
  from q have len: "length (win_qualifying ds') = length ?q - 1" by simp
  from e ne have live: "\<not> end_it it" by simp
  have "end_it (snd ((win_pre_increment ^^ j) (fs', it))) =
      (end_it it \<or> length (win_qualifying ds') < j)"
    by (rule win_advance_iter [OF h cur])
  also have "\<dots> = (length ?q - 1 < j)" by (simp only: live len simp_thms)
  also have "\<dots> = (length ?q \<le> j)" using k by arith
  finally show ?thesis by (simp only: c)
qed

lemma lin_constructed_advance:
  assumes k: "1 \<le> length (lin_qualifying (lin_listing fs p))"
  shows "end_it (snd ((lin_pre_increment ^^ j) (lin_directory_iterator u p fs))) =
     (length (lin_qualifying (lin_listing fs p)) \<le> j)"
proof -
  let ?q = "lin_qualifying (lin_listing fs p)"
  obtain fs' it where c: "lin_directory_iterator u p fs = (fs', it)"
    by (cases "lin_directory_iterator u p fs") blast
  from k have ne: "?q \<noteq> []" by auto
  from lin_prepare_spec [OF c] have
    "?q \<noteq> [] \<longrightarrow>
        handle_it it = Some (next_stream fs) \<and> find_ptr_it it = Some (next_stream fs) \<and>
        value_it it =
          (case stat_results fs (lin_dir_path p @ hd ?q) of
             Some st \<Rightarrow> value_type (hd ?q) (S_ISDIR (st_mode st)) (unat (st_size st))
           | None \<Rightarrow> value_type (hd ?q) False 0) \<and>
        (\<exists>ns'. dir_streams fs' (next_stream fs) = Some ns' \<and> lin_qualifying ns' = tl ?q)"
    and e: "end_it it = (?q = [])"
    by blast+
  with ne obtain ns' where h: "handle_it it = Some (next_stream fs)"
    and cur: "dir_streams fs' (next_stream fs) = Some ns'"
    and q: "lin_qualifying ns' = tl ?q"
    by blast
  from q have len: "length (lin_qualifying ns') = length ?q - 1" by simp
  from e ne have live: "\<not> end_it it" by simp
  have "end_it (snd ((lin_pre_increment ^^ j) (fs', it))) =
      (end_it it \<or> length (lin_qualifying ns') < j)"
    by (rule lin_advance_iter [OF h cur])
  also have "\<dots> = (length ?q - 1 < j)" by (simp only: live len simp_thms)
  also have "\<dots> = (length ?q \<le> j)" using k by arith
  finally show ?thesis by (simp only: c)
qed

text \<open>
  C4. When the listing a constructor enumerates has \<open>k \<ge> 1\<close> qualifying entries, the
  constructed iterator is not at end, it is still not at end after every number \<open>j < k\<close>
  of increments, and it is at end after exactly \<open>k\<close> increments. Both backends.
\<close>

theorem k_advances_reach_end:
  "(1 \<le> length (win_qualifying (win_listing fs p)) \<longrightarrow>
      \<not> end_it (snd (win_directory_iterator u p fs)) \<and>
      (\<forall>j. j < length (win_qualifying (win_listing fs p)) \<longrightarrow>
         \<not> end_it (snd ((win_pre_increment ^^ j) (win_directory_iterator u p fs)))) \<and>
      end_it (snd ((win_pre_increment ^^ length (win_qualifying (win_listing fs p)))
         (win_directory_iterator u p fs)))) \<and>
   (1 \<le> length (lin_qualifying (lin_listing lfs q)) \<longrightarrow>
      \<not> end_it (snd (lin_directory_iterator u q lfs)) \<and>
      (\<forall>j. j < length (lin_qualifying (lin_listing lfs q)) \<longrightarrow>
         \<not> end_it (snd ((lin_pre_increment ^^ j) (lin_directory_iterator u q lfs)))) \<and>
      end_it (snd ((lin_pre_increment ^^ length (lin_qualifying (lin_listing lfs q)))
         (lin_directory_iterator u q lfs))))"
proof (intro conjI impI allI)
  assume k: "1 \<le> length (win_qualifying (win_listing fs p))"
  from win_constructed_advance [OF k, of 0 u] k
  show "\<not> end_it (snd (win_directory_iterator u p fs))" by auto
  from win_constructed_advance [OF k]
  show "end_it (snd ((win_pre_increment ^^ length (win_qualifying (win_listing fs p)))
         (win_directory_iterator u p fs)))"
    by simp
next
  fix j
  assume k: "1 \<le> length (win_qualifying (win_listing fs p))"
    and j: "j < length (win_qualifying (win_listing fs p))"
  from win_constructed_advance [OF k, of j u] j
  show "\<not> end_it (snd ((win_pre_increment ^^ j) (win_directory_iterator u p fs)))" by simp
next
  assume k: "1 \<le> length (lin_qualifying (lin_listing lfs q))"
  from lin_constructed_advance [OF k, of 0 u] k
  show "\<not> end_it (snd (lin_directory_iterator u q lfs))" by auto
  from lin_constructed_advance [OF k]
  show "end_it (snd ((lin_pre_increment ^^ length (lin_qualifying (lin_listing lfs q)))
         (lin_directory_iterator u q lfs)))"
    by simp
next
  fix j
  assume k: "1 \<le> length (lin_qualifying (lin_listing lfs q))"
    and j: "j < length (lin_qualifying (lin_listing lfs q))"
  from lin_constructed_advance [OF k, of j u] j
  show "\<not> end_it (snd ((lin_pre_increment ^^ j) (lin_directory_iterator u q lfs)))" by simp
qed

theorem k_advances_reach_end_witness:
  "length (win_qualifying (win_listing ex_win_fs ''d'')) = 2 \<and>
   \<not> end_it (snd (win_directory_iterator ex_uninit ''d'' ex_win_fs)) \<and>
   \<not> end_it (snd (win_pre_increment (win_directory_iterator ex_uninit ''d'' ex_win_fs))) \<and>
   end_it (snd (win_pre_increment (win_pre_increment
     (win_directory_iterator ex_uninit ''d'' ex_win_fs)))) \<and>
   length (lin_qualifying (lin_listing ex_lin_fs ''/d'')) = 2 \<and>
   \<not> end_it (snd (lin_directory_iterator ex_uninit ''/d'' ex_lin_fs)) \<and>
   \<not> end_it (snd (lin_pre_increment (lin_directory_iterator ex_uninit ''/d'' ex_lin_fs))) \<and>
   end_it (snd (lin_pre_increment (lin_pre_increment
     (lin_directory_iterator ex_uninit ''/d'' ex_lin_fs))))"
proof -
  have kw: "length (win_qualifying (win_listing ex_win_fs ''d'')) = 2"
    by (simp add: ex_defs model_defs win_defs)
  have kl: "length (lin_qualifying (lin_listing ex_lin_fs ''/d'')) = 2"
    by (simp add: ex_defs model_defs lin_defs)
  note t = k_advances_reach_end [where fs = ex_win_fs and p = "''d''" and u = ex_uninit
      and lfs = ex_lin_fs and q = "''/d''", unfolded kw kl]
  from t kw kl show ?thesis
    by (simp add: numeral_2_eq_2 All_less_Suc)
qed


section \<open>The end state is terminal\<close>

text \<open>
  C5. Once the end flag is set, no run of increments (pre or post, in any order) clears it.
  A not-at-end iterator whose handle is open stays not at end under an increment exactly
  when a qualifying entry is left behind the cursor, and is at end after it exactly when
  none is left (the native read is exhausted or fails before one is found). Both backends.
\<close>

theorem end_state_is_terminal:
  "(end_it (snd s) \<longrightarrow> end_it (snd (win_increments ops s))) \<and>
   (end_it (snd ls) \<longrightarrow> end_it (snd (lin_increments ops ls))) \<and>
   (\<not> end_it it \<and> handle_it it = Some h \<and> find_cursors fs h = Some ds \<longrightarrow>
      end_it (snd (win_increments [post] (fs, it))) = (win_qualifying ds = [])) \<and>
   (\<not> end_it lit \<and> handle_it lit = Some h' \<and> dir_streams lfs h' = Some ns \<longrightarrow>
      end_it (snd (lin_increments [post] (lfs, lit))) = (lin_qualifying ns = []))"
proof (intro conjI impI)
  assume "end_it (snd s)"
  then show "end_it (snd (win_increments ops s))" by (rule win_increments_end)
next
  assume "end_it (snd ls)"
  then show "end_it (snd (lin_increments ops ls))" by (rule lin_increments_end)
next
  assume a: "\<not> end_it it \<and> handle_it it = Some h \<and> find_cursors fs h = Some ds"
  obtain fs' it' where st: "win_m_read (fs, it) = (fs', it')"
    by (cases "win_m_read (fs, it)") auto
  have "win_increments [post] (fs, it) = (fs', it')"
    by (cases post) (simp_all add: win_post_increment_def win_pre_increment_def st)
  moreover from a st have "end_it it' = (win_qualifying ds = [])"
    using win_m_read_spec [of it h fs ds fs' it'] by simp
  ultimately show "end_it (snd (win_increments [post] (fs, it))) = (win_qualifying ds = [])"
    by simp
next
  assume a: "\<not> end_it lit \<and> handle_it lit = Some h' \<and> dir_streams lfs h' = Some ns"
  obtain fs' it' where st: "lin_m_read (lfs, lit) = (fs', it')"
    by (cases "lin_m_read (lfs, lit)") auto
  have "lin_increments [post] (lfs, lit) = (fs', it')"
    by (cases post) (simp_all add: lin_post_increment_def lin_pre_increment_def st)
  moreover from a st have "end_it it' = (lin_qualifying ns = [])"
    using lin_m_read_spec [of lit h' lfs ns fs' it'] by simp
  ultimately show "end_it (snd (lin_increments [post] (lfs, lit))) = (lin_qualifying ns = [])"
    by simp
qed

theorem end_state_is_terminal_witness:
  "end_it (snd (win_directory_iterator ex_uninit ''g'' ex_win_fs)) \<and>
   end_it (snd (win_increments [True, False, True] (win_directory_iterator ex_uninit ''g'' ex_win_fs))) \<and>
   end_it (snd (lin_directory_iterator ex_uninit ''/g'' ex_lin_fs)) \<and>
   end_it (snd (lin_increments [True, False, True] (lin_directory_iterator ex_uninit ''/g'' ex_lin_fs))) \<and>
   \<not> end_it (snd (win_directory_iterator ex_uninit ''d'' ex_win_fs)) \<and>
   handle_it (snd (win_directory_iterator ex_uninit ''d'' ex_win_fs)) = Some 1 \<and>
   find_cursors (fst (win_directory_iterator ex_uninit ''d'' ex_win_fs)) 1 = Some [ex_wfd_b] \<and>
   win_qualifying [ex_wfd_b] \<noteq> [] \<and>
   \<not> end_it (snd (win_increments [True] (win_directory_iterator ex_uninit ''d'' ex_win_fs))) \<and>
   \<not> end_it (snd (lin_directory_iterator ex_uninit ''/d'' ex_lin_fs)) \<and>
   handle_it (snd (lin_directory_iterator ex_uninit ''/d'' ex_lin_fs)) = Some 1 \<and>
   dir_streams (fst (lin_directory_iterator ex_uninit ''/d'' ex_lin_fs)) 1 = Some [''gone''] \<and>
   lin_qualifying [''gone''] \<noteq> [] \<and>
   \<not> end_it (snd (lin_increments [True] (lin_directory_iterator ex_uninit ''/d'' ex_lin_fs)))"
  using end_state_is_terminal [where s = "win_directory_iterator ex_uninit ''g'' ex_win_fs"
      and ops = "[True, False, True]"
      and ls = "lin_directory_iterator ex_uninit ''/g'' ex_lin_fs"
      and it = "snd (win_directory_iterator ex_uninit ''d'' ex_win_fs)"
      and fs = "fst (win_directory_iterator ex_uninit ''d'' ex_win_fs)"
      and h = 1 and ds = "[ex_wfd_b]" and post = True
      and lit = "snd (lin_directory_iterator ex_uninit ''/d'' ex_lin_fs)"
      and lfs = "fst (lin_directory_iterator ex_uninit ''/d'' ex_lin_fs)"
      and h' = 1 and ns = "[''gone'']"]
  by (simp add: ex_defs model_defs win_defs lin_defs)

section \<open>A failed metadata query\<close>

text \<open>
  C6. The claim: on the backend whose primitive reports only a name, when \<^verbatim>\<open>stat\<close> on the
  joined path fails, the produced entry carries the raw entry's name with size 0 and
  is_directory false, at construction and at every advance, and the scan goes on. The
  constructor does so (first conjunct: a directory whose first entry is the dangling link).
  \<^verbatim>\<open>_m_read\<close> assigns the name alone: in \<^verbatim>\<open>/d\<close> the iterator is constructed on the directory
  \<^verbatim>\<open>sub\<close> (size 4096, is_directory true), and after the increment, where \<^verbatim>\<open>stat\<close> fails on
  \<^verbatim>\<open>gone\<close>, the entry is named \<^verbatim>\<open>gone\<close> and still has size 4096 and is_directory true.
\<close>

theorem linux_failed_stat_on_advance_keeps_stale_fields:
  "value_it (snd (lin_directory_iterator ex_uninit ''/d''
      (ex_lin_fs\<lparr>dir_contents := (\<lambda>p. Some [''.'', ''gone''])\<rparr>))) = value_type ''gone'' False 0 \<and>
   (case lin_directory_iterator ex_uninit ''/d'' ex_lin_fs of
      (fs1, it1) \<Rightarrow>
        \<not> end_it it1 \<and> value_it it1 = value_type ''sub'' True 4096 \<and>
        stat_results fs1 (path_it it1 @ ''/'' @ ''gone'') = None \<and>
        (case lin_pre_increment (fs1, it1) of
           (fs2, it2) \<Rightarrow> \<not> end_it it2 \<and> value_it it2 = value_type ''gone'' True 4096))"
  by (simp add: ex_defs model_defs lin_defs)

section \<open>The size of an entry\<close>

text \<open>
  C7. The claim: an entry whose target is not a regular file has size 0, and a regular file
  has its byte length. Neither holds: no branch looks at the type before it copies the
  size. On Linux the constructor surfaces the directory \<^verbatim>\<open>sub\<close> with the size 4096 that
  \<^verbatim>\<open>stat\<close> reports for it; on Windows the file of 4294967301 bytes is surfaced with size 5,
  the low half of its length.
\<close>

theorem entry_size_counterexample:
  "stat_results ex_lin_fs ''/d/sub'' = Some \<lparr>st_mode = 0x41ED, st_size = 4096\<rparr> \<and>
   S_ISDIR 0x41ED \<and>
   value_it (snd (lin_directory_iterator ex_uninit ''/d'' ex_lin_fs)) = value_type ''sub'' True 4096 \<and>
   size_e (value_it (snd (lin_directory_iterator ex_uninit ''/d'' ex_lin_fs))) \<noteq> 0 \<and>
   win_byte_length ex_wfd_big = 4294967301 \<and>
   value_it (snd (win_directory_iterator ex_uninit ''f'' ex_win_fs)) = value_type ''big'' False 5"
  by (simp add: ex_defs model_defs win_defs lin_defs win_byte_length_def)

text \<open>What the Windows entry holds, field by field.\<close>

lemma win_entry_fields:
  "text_p (m_path (win_entry d)) = cFileName d \<and>
   size_e (win_entry d) = unat (nFileSizeLow d) \<and>
   size_e (win_entry d) = win_byte_length d mod 2 ^ 32 \<and>
   directory (win_entry d) = (dwFileAttributes d AND 0x10 = 0x10)"
proof -
  have "unat (nFileSizeLow d) < 2 ^ 32"
    using unsigned_less [of "nFileSizeLow d", where 'a = nat] by simp
  then have "win_byte_length d mod 2 ^ 32 = unat (nFileSizeLow d)"
    unfolding win_byte_length_def by (simp only: mod_mult_self3 mod_less)
  then show ?thesis
    by (simp add: win_entry_def value_type_def FILE_ATTRIBUTE_DIRECTORY_def and.commute)
qed

text \<open>
  C7, amended. The size of a produced entry is the size the native primitive reports for the
  raw entry, whatever its type. Windows, constructor and increment: the entry is built from
  the first qualifying raw entry left, its size is \<^verbatim>\<open>nFileSizeLow\<close>, that is the byte length
  modulo \<open>2 ^ 32\<close>, and is_directory is the directory attribute bit. Linux, constructor: the
  entry is named after the first qualifying raw entry; when \<^verbatim>\<open>stat\<close> on the joined path
  succeeds its size is \<^verbatim>\<open>st_size\<close> and is_directory is \<^verbatim>\<open>S_ISDIR\<close> of the mode; when it
  fails the size is 0 and is_directory is false.
\<close>

theorem entry_size_is_native_size:
  "(win_qualifying (win_listing fs p) \<noteq> [] \<and> d = hd (win_qualifying (win_listing fs p)) \<and>
    v = value_it (snd (win_directory_iterator u p fs)) \<longrightarrow>
      text_p (m_path v) = cFileName d \<and> size_e v = unat (nFileSizeLow d) \<and>
      size_e v = win_byte_length d mod 2 ^ 32 \<and>
      directory v = (dwFileAttributes d AND 0x10 = 0x10)) \<and>
   (handle_it it = Some h \<and> find_cursors wfs h = Some ds \<and> win_qualifying ds \<noteq> [] \<and>
    d' = hd (win_qualifying ds) \<and> v' = value_it (snd (win_increments [post] (wfs, it))) \<longrightarrow>
      text_p (m_path v') = cFileName d' \<and> size_e v' = unat (nFileSizeLow d') \<and>
      size_e v' = win_byte_length d' mod 2 ^ 32 \<and>
      directory v' = (dwFileAttributes d' AND 0x10 = 0x10)) \<and>
   (lin_qualifying (lin_listing lfs q) \<noteq> [] \<and> n = hd (lin_qualifying (lin_listing lfs q)) \<and>
    lv = value_it (snd (lin_directory_iterator u q lfs)) \<longrightarrow>
      text_p (m_path lv) = n \<and>
      (\<forall>st. stat_results lfs (lin_dir_path q @ n) = Some st \<longrightarrow>
         size_e lv = unat (st_size st) \<and> directory lv = S_ISDIR (st_mode st)) \<and>
      (stat_results lfs (lin_dir_path q @ n) = None \<longrightarrow> size_e lv = 0 \<and> \<not> directory lv))"
proof (intro conjI impI)
  assume a: "win_qualifying (win_listing fs p) \<noteq> [] \<and> d = hd (win_qualifying (win_listing fs p)) \<and>
    v = value_it (snd (win_directory_iterator u p fs))"
  obtain fs' it0 where c: "win_directory_iterator u p fs = (fs', it0)"
    by (cases "win_directory_iterator u p fs") blast
  from a have ne: "win_qualifying (win_listing fs p) \<noteq> []"
    and d: "hd (win_qualifying (win_listing fs p)) = d" and v: "v = value_it it0"
    by (simp_all add: c)
  from win_prepare_spec [OF c] ne
  have "value_it it0 = win_entry (hd (win_qualifying (win_listing fs p)))" by blast
  then have "v = win_entry d" unfolding d v .
  then show "text_p (m_path v) = cFileName d" "size_e v = unat (nFileSizeLow d)"
    "size_e v = win_byte_length d mod 2 ^ 32"
    "directory v = (dwFileAttributes d AND 0x10 = 0x10)"
    using win_entry_fields [of d] by simp_all
next
  assume a: "handle_it it = Some h \<and> find_cursors wfs h = Some ds \<and> win_qualifying ds \<noteq> [] \<and>
    d' = hd (win_qualifying ds) \<and> v' = value_it (snd (win_increments [post] (wfs, it)))"
  obtain fs' it' where st: "win_m_read (wfs, it) = (fs', it')"
    by (cases "win_m_read (wfs, it)") blast
  have inc: "win_increments [post] (wfs, it) = (fs', it')"
    by (cases post) (simp_all add: win_post_increment_def win_pre_increment_def st)
  from a have h: "handle_it it = Some h" and cur: "find_cursors wfs h = Some ds"
    and ne: "win_qualifying ds \<noteq> []" and d': "d' = hd (win_qualifying ds)"
    and v': "v' = value_it (snd (win_increments [post] (wfs, it)))"
    by blast+
  from win_m_read_spec [OF h cur st] ne
  have "value_it it' = win_entry (hd (win_qualifying ds))" by simp
  then have "v' = win_entry d'" unfolding v' d' inc by simp
  then show "text_p (m_path v') = cFileName d'" "size_e v' = unat (nFileSizeLow d')"
    "size_e v' = win_byte_length d' mod 2 ^ 32"
    "directory v' = (dwFileAttributes d' AND 0x10 = 0x10)"
    using win_entry_fields [of d'] by simp_all
next
  assume a: "lin_qualifying (lin_listing lfs q) \<noteq> [] \<and> n = hd (lin_qualifying (lin_listing lfs q)) \<and>
    lv = value_it (snd (lin_directory_iterator u q lfs))"
  obtain fs' it0 where c: "lin_directory_iterator u q lfs = (fs', it0)"
    by (cases "lin_directory_iterator u q lfs") blast
  from a have ne: "lin_qualifying (lin_listing lfs q) \<noteq> []"
    and n: "hd (lin_qualifying (lin_listing lfs q)) = n" and lv: "lv = value_it it0"
    by (simp_all add: c)
  from lin_prepare_spec [OF c] ne
  have "value_it it0 =
      (case stat_results lfs (lin_dir_path q @ hd (lin_qualifying (lin_listing lfs q))) of
         Some st \<Rightarrow> value_type (hd (lin_qualifying (lin_listing lfs q)))
                      (S_ISDIR (st_mode st)) (unat (st_size st))
       | None \<Rightarrow> value_type (hd (lin_qualifying (lin_listing lfs q))) False 0)"
    by blast
  then have v: "lv = (case stat_results lfs (lin_dir_path q @ n) of
             Some st \<Rightarrow> value_type n (S_ISDIR (st_mode st)) (unat (st_size st))
           | None \<Rightarrow> value_type n False 0)"
    unfolding n lv .
  show "text_p (m_path lv) = n"
    by (simp add: v value_type_def split: option.splits)
  show "\<forall>st. stat_results lfs (lin_dir_path q @ n) = Some st \<longrightarrow>
         size_e lv = unat (st_size st) \<and> directory lv = S_ISDIR (st_mode st)"
    by (simp add: v value_type_def)
  assume "stat_results lfs (lin_dir_path q @ n) = None"
  then show "size_e lv = 0" "\<not> directory lv"
    by (simp_all add: v value_type_def)
qed

theorem entry_size_is_native_size_witness:
  "win_qualifying (win_listing ex_win_fs ''f'') \<noteq> [] \<and>
   hd (win_qualifying (win_listing ex_win_fs ''f'')) = ex_wfd_big \<and>
   size_e (value_it (snd (win_directory_iterator ex_uninit ''f'' ex_win_fs))) = 5 \<and>
   win_byte_length ex_wfd_big mod 2 ^ 32 = 5 \<and>
   handle_it (snd (win_directory_iterator ex_uninit ''d'' ex_win_fs)) = Some 1 \<and>
   find_cursors (fst (win_directory_iterator ex_uninit ''d'' ex_win_fs)) 1 = Some [ex_wfd_b] \<and>
   win_qualifying [ex_wfd_b] \<noteq> [] \<and>
   value_it (snd (win_increments [False] (win_directory_iterator ex_uninit ''d'' ex_win_fs))) =
     value_type ''b'' True 0 \<and>
   lin_qualifying (lin_listing ex_lin_fs ''/d'') \<noteq> [] \<and>
   hd (lin_qualifying (lin_listing ex_lin_fs ''/d'')) = ''sub'' \<and>
   stat_results ex_lin_fs (lin_dir_path ''/d'' @ ''sub'') = Some \<lparr>st_mode = 0x41ED, st_size = 4096\<rparr> \<and>
   size_e (value_it (snd (lin_directory_iterator ex_uninit ''/d'' ex_lin_fs))) = 4096 \<and>
   directory (value_it (snd (lin_directory_iterator ex_uninit ''/d'' ex_lin_fs))) \<and>
   lin_qualifying (lin_listing (ex_lin_fs\<lparr>dir_contents := (\<lambda>p. Some [''.'', ''gone''])\<rparr>) ''/d'') \<noteq> [] \<and>
   stat_results (ex_lin_fs\<lparr>dir_contents := (\<lambda>p. Some [''.'', ''gone''])\<rparr>)
     (lin_dir_path ''/d'' @ ''gone'') = None \<and>
   size_e (value_it (snd (lin_directory_iterator ex_uninit ''/d''
     (ex_lin_fs\<lparr>dir_contents := (\<lambda>p. Some [''.'', ''gone''])\<rparr>)))) = 0 \<and>
   \<not> directory (value_it (snd (lin_directory_iterator ex_uninit ''/d''
     (ex_lin_fs\<lparr>dir_contents := (\<lambda>p. Some [''.'', ''gone''])\<rparr>))))"
  using entry_size_is_native_size [where fs = ex_win_fs and p = "''f''" and u = ex_uninit
      and d = ex_wfd_big
      and v = "value_it (snd (win_directory_iterator ex_uninit ''f'' ex_win_fs))"
      and it = "snd (win_directory_iterator ex_uninit ''d'' ex_win_fs)"
      and wfs = "fst (win_directory_iterator ex_uninit ''d'' ex_win_fs)"
      and h = 1 and ds = "[ex_wfd_b]" and d' = ex_wfd_b and post = False
      and v' = "value_it (snd (win_increments [False]
                  (win_directory_iterator ex_uninit ''d'' ex_win_fs)))"
      and lfs = ex_lin_fs and q = "''/d''" and n = "''sub''"
      and lv = "value_it (snd (lin_directory_iterator ex_uninit ''/d'' ex_lin_fs))"]
    entry_size_is_native_size [where fs = ex_win_fs and p = "''f''" and u = ex_uninit
      and d = ex_wfd_big
      and v = "value_it (snd (win_directory_iterator ex_uninit ''f'' ex_win_fs))"
      and it = "snd (win_directory_iterator ex_uninit ''d'' ex_win_fs)"
      and wfs = "fst (win_directory_iterator ex_uninit ''d'' ex_win_fs)"
      and h = 1 and ds = "[ex_wfd_b]" and d' = ex_wfd_b and post = False
      and v' = "value_it (snd (win_increments [False]
                  (win_directory_iterator ex_uninit ''d'' ex_win_fs)))"
      and lfs = "ex_lin_fs\<lparr>dir_contents := (\<lambda>p. Some [''.'', ''gone''])\<rparr>"
      and q = "''/d''" and n = "''gone''"
      and lv = "value_it (snd (lin_directory_iterator ex_uninit ''/d''
                  (ex_lin_fs\<lparr>dir_contents := (\<lambda>p. Some [''.'', ''gone''])\<rparr>)))"]
  by (simp add: ex_defs model_defs win_defs lin_defs win_byte_length_def)

section \<open>Post-increment\<close>

text \<open>
  C8. Post-increment returns the iterator as it was before the call (the whole state, so
  the end flag and the current entry in particular), and leaves the iterator and the
  platform in the state that one pre-increment produces. Both backends, every iterator.
\<close>

theorem post_increment_returns_old_state:
  "snd (win_post_increment (fs, it)) = it \<and>
   end_it (snd (win_post_increment (fs, it))) = end_it it \<and>
   value_it (snd (win_post_increment (fs, it))) = value_it it \<and>
   fst (win_post_increment (fs, it)) = win_pre_increment (fs, it) \<and>
   snd (lin_post_increment (lfs, it)) = it \<and>
   end_it (snd (lin_post_increment (lfs, it))) = end_it it \<and>
   value_it (snd (lin_post_increment (lfs, it))) = value_it it \<and>
   fst (lin_post_increment (lfs, it)) = lin_pre_increment (lfs, it)"
  by (simp add: win_post_increment_def win_pre_increment_def lin_post_increment_def
      lin_pre_increment_def)

section \<open>The empty name\<close>

text \<open>
  \<^verbatim>\<open>_m_ignore\<close> accepts the empty name, so a raw entry with an empty name does not qualify.
  Where the entry is built from the raw entry the loop stopped at (the Windows constructor
  and increment, the Linux constructor), a not-at-end iterator never holds an empty name.
\<close>

lemma raw_empty_name_not_surfaced:
  "m_ignore [] \<and>
   (cFileName d = [] \<longrightarrow> win_qualifying (d # ds) = win_qualifying ds) \<and>
   lin_qualifying ([] # ns) = lin_qualifying ns \<and>
   (win_directory_iterator u p fs = (fs', it) \<and> \<not> end_it it \<longrightarrow>
      text_p (m_path (value_it it)) \<noteq> []) \<and>
   (handle_it wit = Some h \<and> win_increments [post] (wfs, wit) = (wfs', wit') \<and> \<not> end_it wit' \<longrightarrow>
      text_p (m_path (value_it wit')) \<noteq> []) \<and>
   (lin_directory_iterator u q lfs = (lfs', lit) \<and> \<not> end_it lit \<longrightarrow>
      text_p (m_path (value_it lit)) \<noteq> [])"
proof (intro conjI impI)
  show "m_ignore []" by simp
  show "lin_qualifying ([] # ns) = lin_qualifying ns" by (simp add: lin_qualifying_def)
next
  assume "cFileName d = []"
  then show "win_qualifying (d # ds) = win_qualifying ds" by (simp add: win_qualifying_def)
next
  assume "win_directory_iterator u p fs = (fs', it) \<and> \<not> end_it it"
  then have "\<not> m_ignore (text_p (m_path (value_it it)))"
    using win_prepare_live by blast
  then show "text_p (m_path (value_it it)) \<noteq> []" by (rule m_ignore_nonempty)
next
  assume a: "handle_it wit = Some h \<and> win_increments [post] (wfs, wit) = (wfs', wit') \<and>
    \<not> end_it wit'"
  then have "win_m_read (wfs, wit) = (wfs', wit')"
    by (cases post) (simp_all add: win_post_increment_def win_pre_increment_def)
  with a have "\<not> m_ignore (text_p (m_path (value_it wit')))"
    using win_m_read_live by blast
  then show "text_p (m_path (value_it wit')) \<noteq> []" by (rule m_ignore_nonempty)
next
  assume "lin_directory_iterator u q lfs = (lfs', lit) \<and> \<not> end_it lit"
  then have "\<not> m_ignore (text_p (m_path (value_it lit)))"
    using lin_prepare_live by blast
  then show "text_p (m_path (value_it lit)) \<noteq> []" by (rule m_ignore_nonempty)
qed


section \<open>Incrementing the end sentinel\<close>

text \<open>
  C10. An increment (pre or post) of a default-constructed iterator changes nothing: the
  iterator comes back as it was (end flag, handle, entry and all), and so does the platform,
  the count of native calls included, so no native call was made. Both backends.
\<close>

theorem increment_of_default_is_noop:
  "win_pre_increment (fs, directory_iterator_default u) = (fs, directory_iterator_default u) \<and>
   win_post_increment (fs, directory_iterator_default u) =
     ((fs, directory_iterator_default u), directory_iterator_default u) \<and>
   win_calls (fst (win_pre_increment (fs, directory_iterator_default u))) = win_calls fs \<and>
   lin_pre_increment (lfs, directory_iterator_default u) = (lfs, directory_iterator_default u) \<and>
   lin_post_increment (lfs, directory_iterator_default u) =
     ((lfs, directory_iterator_default u), directory_iterator_default u) \<and>
   lin_calls (fst (lin_pre_increment (lfs, directory_iterator_default u))) = lin_calls lfs"
  by (simp add: win_pre_increment_def win_post_increment_def win_m_read_def
      lin_pre_increment_def lin_post_increment_def lin_m_read_def directory_iterator_default_def)

end
